theory Spec2Isabelle
  imports Complex_Main
begin

text \<open>
  The HTTP client of the Twenty CRM server: \<^verbatim>\<open>TwentyCrmClient\<close> of \<^verbatim>\<open>src/client.ts\<close> with
  \<^verbatim>\<open>getResourceEndpoint\<close> of \<^verbatim>\<open>src/transforms.ts\<close>. Each method is a function that
  returns either the thrown value (\<open>Inl\<close>) or the result (\<open>Inr\<close>), together with the trace of
  what it did to the transport.
\<close>

section \<open>JavaScript values\<close>

text \<open>
  Request bodies, query mappings and parsed responses are \<^verbatim>\<open>DataObject\<close>s
  (\<^verbatim>\<open>Record<string, unknown>\<close>) or arbitrary JSON values. Numbers are the integers
  (every number the client itself produces is one: limits, offsets, lengths, status codes).
  A string is the list of its UTF-16 code units, and the code units are those below 256 (the
  characters of Latin-1): the length of a string and its indices are those of the list, and
  where a string is percent-encoded (in the query string) a character from 128 on takes the
  two bytes of its UTF-8 form. An object is the list of its own properties in
  property order; inherited properties (\<^verbatim>\<open>constructor\<close>, \<^verbatim>\<open>toString\<close> and the other
  members of \<^verbatim>\<open>Object.prototype\<close>) are not modelled.
\<close>

datatype jsval =
    JUndefined
  | JNull
  | JBool bool
  | JNum int
  | JStr string
  | JArr "jsval list"
  | JObj "(string \<times> jsval) list"

type_synonym DataObject = "(string \<times> jsval) list"

text \<open>Truthiness, as used by \<^verbatim>\<open>||\<close>, \<^verbatim>\<open>&&\<close> and \<^verbatim>\<open>if\<close>.\<close>

fun truthy :: "jsval \<Rightarrow> bool" where
  "truthy JUndefined = False"
| "truthy JNull = False"
| "truthy (JBool b) = b"
| "truthy (JNum n) = (n \<noteq> 0)"
| "truthy (JStr s) = (s \<noteq> [])"
| "truthy (JArr xs) = True"
| "truthy (JObj kvs) = True"

definition js_or :: "jsval \<Rightarrow> jsval \<Rightarrow> jsval" where
  "js_or a b = (if truthy a then a else b)"

definition isArray :: "jsval \<Rightarrow> bool" where
  "isArray v = (case v of JArr xs \<Rightarrow> True | _ \<Rightarrow> False)"

subsection \<open>Numerals\<close>

text \<open>Decimal digits, and the upper-case hexadecimal digits of percent-encoding.\<close>

definition digit_char :: "nat \<Rightarrow> char" where
  "digit_char n = ''0123456789ABCDEF'' ! n"

fun string_of_nat :: "nat \<Rightarrow> string" where
  "string_of_nat n =
     (if n < 10 then [digit_char n]
      else string_of_nat (n div 10) @ [digit_char (n mod 10)])"

declare string_of_nat.simps [simp del]

definition string_of_int :: "int \<Rightarrow> string" where
  "string_of_int i = (if i < 0 then CHR ''-'' # string_of_nat (nat (- i)) else string_of_nat (nat i))"

fun join :: "string \<Rightarrow> string list \<Rightarrow> string" where
  "join sep [] = []"
| "join sep [x] = x"
| "join sep (x # y # ys) = x @ sep @ join sep (y # ys)"

subsection \<open>String coercion\<close>

text \<open>\<^verbatim>\<open>String(v)\<close>, which template literals and \<^verbatim>\<open>URLSearchParams\<close> apply too.\<close>

fun js_String :: "jsval \<Rightarrow> string"
  and js_String_elems :: "jsval list \<Rightarrow> string list" where
  "js_String JUndefined = ''undefined''"
| "js_String JNull = ''null''"
| "js_String (JBool b) = (if b then ''true'' else ''false'')"
| "js_String (JNum n) = string_of_int n"
| "js_String (JStr s) = s"
| "js_String (JArr xs) = join '','' (js_String_elems xs)"
| "js_String (JObj kvs) = ''[object Object]''"
| "js_String_elems [] = []"
| "js_String_elems (x # xs) =
     (if x = JNull \<or> x = JUndefined then [] else js_String x) # js_String_elems xs"

subsection \<open>Case mappings\<close>

text \<open>
  \<^verbatim>\<open>String.prototype.toUpperCase\<close>, as far as the client uses it: the client only asks
  whether the upper-cased HTTP method is \<^verbatim>\<open>GET\<close> or \<^verbatim>\<open>DELETE\<close>. The letters a to z go to
  A to Z; no other character goes to a letter of these two words (a character from 128 on
  goes to a character from 128 on or, the sharp s, to \<^verbatim>\<open>SS\<close>), so the answer to that
  question is the same when those characters are left as they are.
\<close>

definition upper_char :: "char \<Rightarrow> char" where
  "upper_char c = (let n = (of_char c :: nat) in if 97 \<le> n \<and> n \<le> 122 then char_of (n - 32) else c)"

definition toUpperCase :: "string \<Rightarrow> string" where
  "toUpperCase s = map upper_char s"

text \<open>
  \<^verbatim>\<open>String.prototype.toLowerCase\<close> follows the case tables of Unicode. The lookup by field,
  its only user, takes it as the parameter \<open>toLowerCase\<close>, and what is proved of the lookup
  holds for every such function. On the strings above it is \<open>latin1_toLowerCase\<close>: the
  letters A to Z and the capital letters of Latin-1 from 192 to 222 (215, the multiplication
  sign, is not one) move up by 32 to their small forms, and every other character stays as it
  is.
\<close>

definition lower_char :: "char \<Rightarrow> char" where
  "lower_char c =
     (let n = (of_char c :: nat) in
      if (65 \<le> n \<and> n \<le> 90) \<or> (192 \<le> n \<and> n \<le> 222 \<and> n \<noteq> 215) then char_of (n + 32) else c)"

definition latin1_toLowerCase :: "string \<Rightarrow> string" where
  "latin1_toLowerCase s = map lower_char s"

subsection \<open>Thrown values\<close>

text \<open>
  A thrown value is an \<^verbatim>\<open>Error\<close> instance, with its message and the optional fields the
  client and the transport attach (\<^verbatim>\<open>statusCode\<close>, \<^verbatim>\<open>response\<close> with the status and the
  headers snapshot, \<^verbatim>\<open>code\<close>), or any other value.
\<close>

record js_error =
  message :: string
  statusCode :: "nat option"
  response :: "(nat \<times> (string \<times> string) list) option"
  code :: "string option"

datatype thrown = ErrorObj js_error | OtherThrown jsval

text \<open>\<^verbatim>\<open>new Error(msg)\<close>.\<close>

definition new_Error :: "string \<Rightarrow> thrown" where
  "new_Error msg = ErrorObj \<lparr>message = msg, statusCode = None, response = None, code = None\<rparr>"

text \<open>
  The TypeError of reading the property \<open>k\<close> of \<open>v\<close>, which is \<^verbatim>\<open>null\<close> or
  \<^verbatim>\<open>undefined\<close>, with the message as V8 words it.
\<close>

definition TypeError_thrown :: "jsval \<Rightarrow> string \<Rightarrow> thrown" where
  "TypeError_thrown v k =
     new_Error (''Cannot read properties of '' @ js_String v @ '' (reading '' @ [CHR 0x27] @ k
                @ [CHR 0x27] @ '')'')"

subsection \<open>Objects\<close>

text \<open>
  Property read \<^verbatim>\<open>v[k]\<close>. Reading a property of \<^verbatim>\<open>null\<close> or \<^verbatim>\<open>undefined\<close> throws
  a TypeError; arrays and strings own \<^verbatim>\<open>length\<close> and their indices.
\<close>

definition index_of_key :: "string \<Rightarrow> nat \<Rightarrow> nat option" where
  "index_of_key k n = find (\<lambda>i. string_of_nat i = k) [0..<n]"

fun get_prop :: "jsval \<Rightarrow> string \<Rightarrow> thrown + jsval" where
  "get_prop JUndefined k = Inl (TypeError_thrown JUndefined k)"
| "get_prop JNull k = Inl (TypeError_thrown JNull k)"
| "get_prop (JObj kvs) k = Inr (case map_of kvs k of Some v \<Rightarrow> v | None \<Rightarrow> JUndefined)"
| "get_prop (JArr xs) k =
     Inr (if k = ''length'' then JNum (int (length xs))
          else case index_of_key k (length xs) of Some i \<Rightarrow> xs ! i | None \<Rightarrow> JUndefined)"
| "get_prop (JStr s) k =
     Inr (if k = ''length'' then JNum (int (length s))
          else case index_of_key k (length s) of Some i \<Rightarrow> JStr [s ! i] | None \<Rightarrow> JUndefined)"
| "get_prop (JBool b) k = Inr JUndefined"
| "get_prop (JNum n) k = Inr JUndefined"

text \<open>\<^verbatim>\<open>o.k\<close> on a \<^verbatim>\<open>DataObject\<close>.\<close>

definition obj_get :: "DataObject \<Rightarrow> string \<Rightarrow> jsval" where
  "obj_get kvs k = (case map_of kvs k of Some v \<Rightarrow> v | None \<Rightarrow> JUndefined)"

text \<open>Assignment \<^verbatim>\<open>o[k] = v\<close>: an existing property keeps its place, a new one goes last.\<close>

fun obj_set :: "string \<Rightarrow> jsval \<Rightarrow> DataObject \<Rightarrow> DataObject" where
  "obj_set k v [] = [(k, v)]"
| "obj_set k v ((k', v') # kvs) =
     (if k' = k then (k, v) # kvs else (k', v') # obj_set k v kvs)"

text \<open>\<^verbatim>\<open>delete o[k]\<close>.\<close>

definition obj_delete :: "string \<Rightarrow> DataObject \<Rightarrow> DataObject" where
  "obj_delete k kvs = filter (\<lambda>kv. fst kv \<noteq> k) kvs"

text \<open>Object spread \<^verbatim>\<open>{...v}\<close>: the own enumerable properties of \<open>v\<close>.\<close>

fun spread :: "jsval \<Rightarrow> DataObject" where
  "spread (JObj kvs) = kvs"
| "spread (JArr xs) = map (\<lambda>i. (string_of_nat i, xs ! i)) [0..<length xs]"
| "spread (JStr s) = map (\<lambda>i. (string_of_nat i, JStr [s ! i])) [0..<length s]"
| "spread v = []"

subsection \<open>JSON text\<close>

text \<open>
  \<^verbatim>\<open>JSON.stringify\<close>: properties whose value is \<^verbatim>\<open>undefined\<close> are left out of an
  object, \<^verbatim>\<open>undefined\<close> array elements are written \<^verbatim>\<open>null\<close>, and the result for
  \<^verbatim>\<open>undefined\<close> itself is \<^verbatim>\<open>undefined\<close> (here \<open>None\<close>).
\<close>

definition json_escape :: "char \<Rightarrow> string" where
  "json_escape c =
     (let n = (of_char c :: nat) in
      if n = 0x22 then [CHR 0x5C, CHR 0x22]
      else if n = 0x5C then [CHR 0x5C, CHR 0x5C]
      else if n = 0x08 then [CHR 0x5C, CHR ''b'']
      else if n = 0x09 then [CHR 0x5C, CHR ''t'']
      else if n = 0x0A then [CHR 0x5C, CHR ''n'']
      else if n = 0x0C then [CHR 0x5C, CHR ''f'']
      else if n = 0x0D then [CHR 0x5C, CHR ''r'']
      else if n < 0x20 then
        [CHR 0x5C, CHR ''u'', CHR ''0'', CHR ''0'',
         ''0123456789abcdef'' ! (n div 16), ''0123456789abcdef'' ! (n mod 16)]
      else [c])"

definition JSON_quote :: "string \<Rightarrow> string" where
  "JSON_quote s = CHR 0x22 # concat (map json_escape s) @ [CHR 0x22]"

fun JSON_stringify :: "jsval \<Rightarrow> string option"
  and stringify_elems :: "jsval list \<Rightarrow> string list"
  and stringify_props :: "(string \<times> jsval) list \<Rightarrow> string list" where
  "JSON_stringify JUndefined = None"
| "JSON_stringify JNull = Some ''null''"
| "JSON_stringify (JBool b) = Some (if b then ''true'' else ''false'')"
| "JSON_stringify (JNum n) = Some (string_of_int n)"
| "JSON_stringify (JStr s) = Some (JSON_quote s)"
| "JSON_stringify (JArr xs) = Some (''['' @ join '','' (stringify_elems xs) @ '']'')"
| "JSON_stringify (JObj kvs) = Some (''{'' @ join '','' (stringify_props kvs) @ ''}'')"
| "stringify_elems [] = []"
| "stringify_elems (x # xs) =
     (case JSON_stringify x of None \<Rightarrow> ''null'' | Some s \<Rightarrow> s) # stringify_elems xs"
| "stringify_props [] = []"
| "stringify_props ((k, v) # kvs) =
     (case JSON_stringify v of
        None \<Rightarrow> stringify_props kvs
      | Some s \<Rightarrow> (JSON_quote k @ '':'' @ s) # stringify_props kvs)"

text \<open>The value \<^verbatim>\<open>JSON.stringify(v)\<close>: a string, or \<^verbatim>\<open>undefined\<close>.\<close>

definition JSON_stringify_value :: "jsval \<Rightarrow> jsval" where
  "JSON_stringify_value v = (case JSON_stringify v of Some s \<Rightarrow> JStr s | None \<Rightarrow> JUndefined)"

subsection \<open>Query strings\<close>

text \<open>
  \<^verbatim>\<open>URLSearchParams\<close>: an ordered list of name/value pairs; \<^verbatim>\<open>set\<close> overwrites the
  first pair of that name and drops the others, or appends; \<^verbatim>\<open>toString\<close> is the
  \<^verbatim>\<open>application/x-www-form-urlencoded\<close> serialisation.
\<close>

type_synonym URLSearchParams = "(string \<times> string) list"

fun params_set :: "string \<Rightarrow> string \<Rightarrow> URLSearchParams \<Rightarrow> URLSearchParams" where
  "params_set k v [] = [(k, v)]"
| "params_set k v ((k', v') # ps) =
     (if k' = k then (k, v) # filter (\<lambda>p. fst p \<noteq> k) ps else (k', v') # params_set k v ps)"

definition form_unreserved :: "char \<Rightarrow> bool" where
  "form_unreserved c =
     (let n = (of_char c :: nat) in
      (48 \<le> n \<and> n \<le> 57) \<or> (65 \<le> n \<and> n \<le> 90) \<or> (97 \<le> n \<and> n \<le> 122)
      \<or> c = CHR ''*'' \<or> c = CHR ''-'' \<or> c = CHR ''.'' \<or> c = CHR ''_'')"

text \<open>The bytes of the UTF-8 form of a character, and a byte percent-encoded.\<close>

definition utf8_bytes :: "char \<Rightarrow> nat list" where
  "utf8_bytes c = (let n = (of_char c :: nat) in if n < 128 then [n] else [192 + n div 64, 128 + n mod 64])"

definition percent_byte :: "nat \<Rightarrow> string" where
  "percent_byte b = [CHR ''%'', digit_char (b div 16), digit_char (b mod 16)]"

definition form_encode_char :: "char \<Rightarrow> string" where
  "form_encode_char c =
     (if form_unreserved c then [c]
      else if c = CHR '' '' then ''+''
      else concat (map percent_byte (utf8_bytes c)))"

definition form_encode :: "string \<Rightarrow> string" where
  "form_encode s = concat (map form_encode_char s)"

definition params_toString :: "URLSearchParams \<Rightarrow> string" where
  "params_toString ps = join ''&'' (map (\<lambda>p. form_encode (fst p) @ ''='' @ form_encode (snd p)) ps)"

section \<open>Transport and trace\<close>

record http_request =
  req_url :: string
  req_method :: string
  req_headers :: "(string \<times> string) list"
  req_body :: "string option"

text \<open>
  A response as the client reads it: \<open>resp_text\<close> is what \<^verbatim>\<open>response.text()\<close> yields and
  \<open>resp_json\<close> what \<^verbatim>\<open>JSON.parse\<close> makes of that text (\<open>Inl\<close> the message of its
  SyntaxError).
\<close>

record http_response =
  resp_ok :: bool
  resp_status :: nat
  resp_headers :: "(string \<times> string) list"
  resp_text :: string
  resp_json :: "string + jsval"

text \<open>
  \<^verbatim>\<open>fetch\<close> (or the reading of the response text) rejects with a value, or there is a
  response.
\<close>

datatype fetch_result = Rejected thrown | Responded http_response

text \<open>
  What one sequential thread of the client does to the outside: the requests it hands to
  \<^verbatim>\<open>fetch\<close> and the waits between them, in order. The transport answers a request
  knowing the requests that thread has issued before.
\<close>

datatype event = Fetch http_request | Sleep nat

type_synonym transport = "http_request list \<Rightarrow> http_request \<Rightarrow> fetch_result"

fun fetched :: "event list \<Rightarrow> http_request list" where
  "fetched [] = []"
| "fetched (Fetch r # es) = r # fetched es"
| "fetched (Sleep d # es) = fetched es"

section \<open>The client\<close>

record ITwentyCrmCredentials =
  apiUrl :: string
  cred_apiKey :: string

record TwentyCrmClient =
  baseUrl :: string
  apiKey :: string

text \<open>\<^verbatim>\<open>s.replace(/\/$/, "")\<close>: one slash at the very end is removed.\<close>

definition strip_trailing_slash :: "string \<Rightarrow> string" where
  "strip_trailing_slash s = (if s \<noteq> [] \<and> last s = CHR ''/'' then butlast s else s)"

definition constructor :: "ITwentyCrmCredentials \<Rightarrow> TwentyCrmClient" where
  "constructor credentials =
     \<lparr>baseUrl = strip_trailing_slash (apiUrl credentials), apiKey = cred_apiKey credentials\<rparr>"

subsection \<open>request\<close>

definition transmittable :: "jsval \<Rightarrow> bool" where
  "transmittable v = (v \<noteq> JUndefined \<and> v \<noteq> JNull \<and> v \<noteq> JStr [])"

fun build_params :: "DataObject \<Rightarrow> URLSearchParams \<Rightarrow> URLSearchParams" where
  "build_params [] params = params"
| "build_params ((key, v) # kvs) params =
     build_params kvs (if transmittable v then params_set key (js_String v) params else params)"

text \<open>The parameters put into the \<^verbatim>\<open>URLSearchParams\<close>, and what is appended to the URL.\<close>

definition request_params :: "DataObject option \<Rightarrow> URLSearchParams" where
  "request_params qs =
     (case qs of
        None \<Rightarrow> []
      | Some q \<Rightarrow> if q \<noteq> [] then build_params q [] else [])"

definition query_suffix :: "DataObject option \<Rightarrow> string" where
  "query_suffix qs =
     (let queryString = params_toString (request_params qs) in
      if queryString \<noteq> [] then ''?'' @ queryString else [])"

definition request_url :: "TwentyCrmClient \<Rightarrow> string \<Rightarrow> DataObject option \<Rightarrow> string" where
  "request_url c endpoint qs = baseUrl c @ endpoint @ query_suffix qs"

definition request_body :: "string \<Rightarrow> DataObject option \<Rightarrow> string option" where
  "request_body method body =
     (case body of
        None \<Rightarrow> None
      | Some b \<Rightarrow>
          if b \<noteq> [] \<and> toUpperCase method \<notin> set [''GET'', ''DELETE'']
          then JSON_stringify (JObj b) else None)"

definition build_request ::
  "TwentyCrmClient \<Rightarrow> string \<Rightarrow> string \<Rightarrow> DataObject option \<Rightarrow> DataObject option \<Rightarrow> http_request" where
  "build_request c method endpoint body qs =
     \<lparr>req_url = request_url c endpoint qs,
      req_method = method,
      req_headers = [(''Authorization'', ''Bearer '' @ apiKey c),
                     (''Content-Type'', ''application/json'')],
      req_body = request_body method body\<rparr>"

definition api_error :: "http_response \<Rightarrow> thrown" where
  "api_error r =
     ErrorObj \<lparr>message = ''Twenty CRM API error ('' @ string_of_nat (resp_status r) @ ''): ''
                          @ resp_text r,
               statusCode = Some (resp_status r),
               response = Some (resp_status r, resp_headers r),
               code = None\<rparr>"

text \<open>What \<^verbatim>\<open>request\<close> makes of the outcome of \<^verbatim>\<open>fetch\<close>.\<close>

definition read_response :: "fetch_result \<Rightarrow> thrown + jsval" where
  "read_response res =
     (case res of
        Rejected e \<Rightarrow> Inl e
      | Responded r \<Rightarrow>
          if \<not> resp_ok r then Inl (api_error r)
          else if resp_text r = [] then Inr (JObj [])
          else (case resp_json r of
                  Inl msg \<Rightarrow> Inl (new_Error msg)
                | Inr v \<Rightarrow> Inr v))"

definition request ::
  "TwentyCrmClient \<Rightarrow> transport \<Rightarrow> string \<Rightarrow> string \<Rightarrow> DataObject option \<Rightarrow> DataObject option
   \<Rightarrow> event list \<Rightarrow> (thrown + jsval) \<times> event list" where
  "request c fetch method endpoint body qs tr =
     (let req = build_request c method endpoint body qs
      in (read_response (fetch (fetched tr) req), tr @ [Fetch req]))"

subsection \<open>The retry policy\<close>

text \<open>
  Modelled from the spec: the module \<^verbatim>\<open>retry.ts\<close> (\<^verbatim>\<open>IRetryConfig\<close>,
  \<^verbatim>\<open>DEFAULT_RETRY_CONFIG\<close>, \<^verbatim>\<open>isRetryableError\<close>, \<^verbatim>\<open>calculateDelay\<close>,
  \<^verbatim>\<open>extractRateLimitInfo\<close>, \<^verbatim>\<open>getErrorContext\<close>, \<^verbatim>\<open>sleep\<close>) is not among the
  sources; only its tests and its uses in the client are. A retry configuration is
  \<open>{maxRetries, baseDelayMs, maxDelayMs, jitter factor}\<close>. The functions of the module and
  its constant \<^verbatim>\<open>DEFAULT_RETRY_CONFIG\<close> are parameters of the client, collected in
  \<open>retry_policy\<close>: the theorems below hold for every policy. \<^verbatim>\<open>calculateDelay\<close> draws a
  random jitter, so its model takes one more argument, the length of the trace so far, on
  which the value may depend; \<^verbatim>\<open>sleep(d)\<close> is the event \<open>Sleep d\<close>, \<open>d\<close> in
  milliseconds.
\<close>

text \<open>
  The configuration that \<^verbatim>\<open>requestWithRetry\<close> works with. Its fields come from the
  caller's \<^verbatim>\<open>Partial<IRetryConfig>\<close>, which the client does not validate: a field holds
  any number, or \<^verbatim>\<open>undefined\<close> (\<open>None\<close>). The numbers are the finite ones, as reals:
  the loop compares its counter with \<open>maxRetries\<close>, and a negative number, a fraction
  and \<^verbatim>\<open>undefined\<close> each lead it elsewhere than a count does. \<^verbatim>\<open>NaN\<close> compares as
  \<^verbatim>\<open>undefined\<close> does and \<^verbatim>\<open>-Infinity\<close> as a negative number does; \<^verbatim>\<open>Infinity\<close>,
  with which the loop has no bound, has no term here.
\<close>

record IRetryConfig =
  maxRetries :: "real option"
  baseDelayMs :: "real option"
  maxDelayMs :: "real option"
  jitterFactor :: "real option"

text \<open>
  Modelled from the spec: the constant \<^verbatim>\<open>DEFAULT_RETRY_CONFIG\<close> of the absent
  \<^verbatim>\<open>retry.ts\<close>, a configuration whose \<open>maxRetries\<close> is a count and whose other fields
  are numbers (three retries and a base delay of 1000 ms, by section 4.2).
\<close>

record DefaultRetryConfig =
  default_maxRetries :: nat
  default_baseDelayMs :: real
  default_maxDelayMs :: real
  default_jitterFactor :: real

record retry_policy =
  DEFAULT_RETRY_CONFIG :: DefaultRetryConfig
  isRetryableError :: "thrown \<Rightarrow> bool"
  calculateDelay :: "nat \<Rightarrow> IRetryConfig \<Rightarrow> nat \<Rightarrow> nat"
  extractRateLimitInfo :: "thrown \<Rightarrow> nat option"
  getErrorContext :: "thrown \<Rightarrow> nat \<Rightarrow> real option \<Rightarrow> string"

text \<open>
  \<^verbatim>\<open>Partial<IRetryConfig>\<close>: each field is absent, or present with a number or
  \<^verbatim>\<open>undefined\<close> as its value (\<^verbatim>\<open>{ maxRetries: undefined }\<close> is
  \<open>Present None\<close>).
\<close>

datatype 'a partial_field = Absent | Present 'a

record PartialRetryConfig =
  p_maxRetries :: "real option partial_field"
  p_baseDelayMs :: "real option partial_field"
  p_maxDelayMs :: "real option partial_field"
  p_jitterFactor :: "real option partial_field"

definition no_override :: PartialRetryConfig where
  "no_override = \<lparr>p_maxRetries = Absent, p_baseDelayMs = Absent, p_maxDelayMs = Absent,
                   p_jitterFactor = Absent\<rparr>"

text \<open>
  \<^verbatim>\<open>{ ...DEFAULT_RETRY_CONFIG, ...retryConfig }\<close>: a field that is present in the
  override wins, also when its value is \<^verbatim>\<open>undefined\<close>.
\<close>

definition merge_config :: "DefaultRetryConfig \<Rightarrow> PartialRetryConfig \<Rightarrow> IRetryConfig" where
  "merge_config d p =
     \<lparr>maxRetries = (case p_maxRetries p of Present v \<Rightarrow> v | Absent \<Rightarrow> Some (real (default_maxRetries d))),
      baseDelayMs = (case p_baseDelayMs p of Present v \<Rightarrow> v | Absent \<Rightarrow> Some (default_baseDelayMs d)),
      maxDelayMs = (case p_maxDelayMs p of Present v \<Rightarrow> v | Absent \<Rightarrow> Some (default_maxDelayMs d)),
      jitterFactor = (case p_jitterFactor p of Present v \<Rightarrow> v | Absent \<Rightarrow> Some (default_jitterFactor d))\<rparr>"

text \<open>
  The comparisons \<^verbatim>\<open>attempt <= config.maxRetries\<close> and \<^verbatim>\<open>attempt < config.maxRetries\<close>
  of the loop counter with a number or \<^verbatim>\<open>undefined\<close>: both are false on
  \<^verbatim>\<open>undefined\<close>.
\<close>

definition attempt_le :: "nat \<Rightarrow> real option \<Rightarrow> bool" where
  "attempt_le attempt m = (case m of Some x \<Rightarrow> real attempt \<le> x | None \<Rightarrow> False)"

definition attempt_lt :: "nat \<Rightarrow> real option \<Rightarrow> bool" where
  "attempt_lt attempt m = (case m of Some x \<Rightarrow> real attempt < x | None \<Rightarrow> False)"

text \<open>The counter stays below this number as long as the first comparison holds.\<close>

definition attempts_bound :: "real option \<Rightarrow> nat" where
  "attempts_bound m = (case m of Some x \<Rightarrow> nat (\<lfloor>x\<rfloor> + 1) | None \<Rightarrow> 0)"

text \<open>
  Modelled from the spec: \<^verbatim>\<open>isRetryableError\<close> of the absent \<^verbatim>\<open>retry.ts\<close>. Retryable are
  the HTTP statuses 429, 502, 503 and 504 (read from \<^verbatim>\<open>statusCode\<close> or
  \<^verbatim>\<open>response.status\<close>), the network error codes, and messages containing a
  transient-failure indicator. Its tests pass it plain objects as well as errors, so a thrown
  object that is not an \<^verbatim>\<open>Error\<close> is classified by the same properties.
\<close>

definition retryable_statuses :: "nat list" where
  "retryable_statuses = [429, 502, 503, 504]"

definition retryable_codes :: "string list" where
  "retryable_codes = [''ECONNREFUSED'', ''ETIMEDOUT'', ''ECONNRESET'', ''ENOTFOUND'']"

fun contains :: "string \<Rightarrow> string \<Rightarrow> bool" where
  "contains [] sub = (sub = [])"
| "contains (c # cs) sub = (take (length sub) (c # cs) = sub \<or> contains cs sub)"

definition transient_message :: "string \<Rightarrow> bool" where
  "transient_message m =
     list_ex (contains m) ([''timeout'', ''socket hang up'', ''network error''] @ retryable_codes)"

definition retryable_status_value :: "jsval \<Rightarrow> bool" where
  "retryable_status_value v = (case v of JNum n \<Rightarrow> n \<in> set (map int retryable_statuses) | _ \<Rightarrow> False)"

definition spec_isRetryableError :: "thrown \<Rightarrow> bool" where
  "spec_isRetryableError t =
     (case t of
        ErrorObj e \<Rightarrow>
          (case statusCode e of Some n \<Rightarrow> n \<in> set retryable_statuses | None \<Rightarrow> False)
          \<or> (case response e of Some (n, hs) \<Rightarrow> n \<in> set retryable_statuses | None \<Rightarrow> False)
          \<or> (case code e of Some c \<Rightarrow> c \<in> set retryable_codes | None \<Rightarrow> False)
          \<or> transient_message (message e)
      | OtherThrown (JObj kvs) \<Rightarrow>
          retryable_status_value (obj_get kvs ''statusCode'')
          \<or> (case obj_get kvs ''response'' of
                JObj r \<Rightarrow> retryable_status_value (obj_get r ''status'')
              | _ \<Rightarrow> False)
          \<or> (case obj_get kvs ''code'' of JStr c \<Rightarrow> c \<in> set retryable_codes | _ \<Rightarrow> False)
          \<or> (case obj_get kvs ''message'' of JStr m \<Rightarrow> transient_message m | _ \<Rightarrow> False)
      | OtherThrown v \<Rightarrow> False)"

subsection \<open>requestWithRetry\<close>

text \<open>\<^verbatim>\<open>error instanceof Error ? error.message : "Unknown error"\<close>.\<close>

definition error_message :: "thrown \<Rightarrow> string" where
  "error_message t = (case t of ErrorObj e \<Rightarrow> message e | OtherThrown v \<Rightarrow> ''Unknown error'')"

text \<open>\<^verbatim>\<open>rateLimitInfo.retryAfter || calculateDelay(attempt, config)\<close>.\<close>

definition retry_delay :: "retry_policy \<Rightarrow> IRetryConfig \<Rightarrow> thrown \<Rightarrow> nat \<Rightarrow> nat \<Rightarrow> nat" where
  "retry_delay P config err attempt seed =
     (case extractRateLimitInfo P err of
        Some retryAfter \<Rightarrow>
          if retryAfter \<noteq> 0 then retryAfter else calculateDelay P attempt config seed
      | None \<Rightarrow> calculateDelay P attempt config seed)"

text \<open>
  The \<^verbatim>\<open>for\<close> loop over \<open>attempt\<close>, from \<open>attempt\<close> on; \<open>lastError\<close> is \<open>None\<close> while
  it is \<^verbatim>\<open>undefined\<close>. The \<^verbatim>\<open>throw lastError\<close> after the loop is the last branch: it
  throws \<^verbatim>\<open>undefined\<close> when no attempt was made, and otherwise the error of the last
  attempt as \<^verbatim>\<open>request\<close> raised it.
\<close>

function requestWithRetry_loop ::
  "TwentyCrmClient \<Rightarrow> transport \<Rightarrow> retry_policy \<Rightarrow> IRetryConfig \<Rightarrow> string \<Rightarrow> string
   \<Rightarrow> DataObject option \<Rightarrow> DataObject option \<Rightarrow> nat \<Rightarrow> thrown option
   \<Rightarrow> event list \<Rightarrow> (thrown + jsval) \<times> event list" where
  "requestWithRetry_loop c fetch P config method endpoint body qs attempt lastError tr =
     (if attempt_le attempt (maxRetries config) then
        (case request c fetch method endpoint body qs tr of
           (Inr v, tr') \<Rightarrow> (Inr v, tr')
         | (Inl err, tr') \<Rightarrow>
             if \<not> (isRetryableError P err \<and> attempt_lt attempt (maxRetries config)) then
               (Inl (new_Error (''Twenty CRM API error: ''
                       @ getErrorContext P err attempt (maxRetries config)
                       @ error_message err)), tr')
             else
               requestWithRetry_loop c fetch P config method endpoint body qs (Suc attempt)
                 (Some err) (tr' @ [Sleep (retry_delay P config err attempt (length tr'))]))
      else (Inl (case lastError of Some e \<Rightarrow> e | None \<Rightarrow> OtherThrown JUndefined), tr))"
  by pat_completeness auto
termination
  by (relation "measure (\<lambda>(c, fetch, P, config, method, endpoint, body, qs, attempt, lastError, tr).
        attempts_bound (maxRetries config) - attempt)")
     (auto simp: attempt_lt_def attempts_bound_def split: option.splits, linarith)

declare requestWithRetry_loop.simps [simp del]

definition requestWithRetry ::
  "TwentyCrmClient \<Rightarrow> transport \<Rightarrow> retry_policy \<Rightarrow> string \<Rightarrow> string
   \<Rightarrow> DataObject option \<Rightarrow> DataObject option \<Rightarrow> PartialRetryConfig
   \<Rightarrow> event list \<Rightarrow> (thrown + jsval) \<times> event list" where
  "requestWithRetry c fetch P method endpoint body qs retryConfig tr =
     requestWithRetry_loop c fetch P (merge_config (DEFAULT_RETRY_CONFIG P) retryConfig)
       method endpoint body qs 0 None tr"

subsection \<open>Response unwrapping\<close>

text \<open>\<^verbatim>\<open>const data = response.data || response\<close>.\<close>

definition unwrap_data :: "jsval \<Rightarrow> thrown + jsval" where
  "unwrap_data resp =
     (case get_prop resp ''data'' of
        Inl x \<Rightarrow> Inl x
      | Inr d \<Rightarrow> Inr (js_or d resp))"

text \<open>\<^verbatim>\<open>Array.isArray(data) ? data : [data]\<close>.\<close>

definition as_items :: "jsval \<Rightarrow> jsval list" where
  "as_items data = (case data of JArr xs \<Rightarrow> xs | _ \<Rightarrow> [data])"

subsection \<open>requestAllItems\<close>

text \<open>
  \<^verbatim>\<open>const paginatedQs = { ...qs }; paginatedQs.limit = paginatedQs.limit || 200;
  paginatedQs.offset = 0\<close>.
\<close>

definition init_paginatedQs :: "DataObject option \<Rightarrow> DataObject" where
  "init_paginatedQs qs =
     (let paginatedQs = (case qs of None \<Rightarrow> [] | Some q \<Rightarrow> q);
          paginatedQs = obj_set ''limit'' (js_or (obj_get paginatedQs ''limit'') (JNum 200)) paginatedQs
      in obj_set ''offset'' (JNum 0) paginatedQs)"

text \<open>
  The loop condition: \<^verbatim>\<open>responseData.data && Array.isArray(responseData.data) &&
  responseData.data.length === paginatedQs.limit\<close>, on the value \<open>d\<close> of
  \<^verbatim>\<open>responseData.data\<close>.
\<close>

definition full_page :: "jsval \<Rightarrow> jsval \<Rightarrow> bool" where
  "full_page d limit =
     (truthy d \<and> (case d of JArr xs \<Rightarrow> JNum (int (length xs)) = limit | _ \<Rightarrow> False))"

text \<open>
  The \<^verbatim>\<open>do ... while\<close> loop, which need not end: \<open>fuel\<close> bounds the rounds and the
  result is \<open>None\<close> when it runs out. \<open>offset\<close> is the number held by
  \<^verbatim>\<open>paginatedQs.offset\<close>. The source adds \<^verbatim>\<open>paginatedQs.limit\<close> to it before it tests the
  condition; the sum is read again only when the loop goes on, and then the limit is the
  number \<open>length xs\<close> (by \<open>full_page\<close>), which is what the model adds.
\<close>

fun requestAllItems_loop ::
  "nat \<Rightarrow> TwentyCrmClient \<Rightarrow> transport \<Rightarrow> retry_policy \<Rightarrow> string \<Rightarrow> string
   \<Rightarrow> DataObject option \<Rightarrow> DataObject \<Rightarrow> int \<Rightarrow> jsval list \<Rightarrow> event list
   \<Rightarrow> ((thrown + jsval list) \<times> event list) option" where
  "requestAllItems_loop 0 c fetch P method endpoint body paginatedQs offset returnData tr = None"
| "requestAllItems_loop (Suc fuel) c fetch P method endpoint body paginatedQs offset returnData tr =
     (case requestWithRetry c fetch P method endpoint body
             (Some (obj_set ''offset'' (JNum offset) paginatedQs)) no_override tr of
        (Inl err, tr') \<Rightarrow> Some (Inl err, tr')
      | (Inr responseData, tr') \<Rightarrow>
          (case get_prop responseData ''data'' of
             Inl x \<Rightarrow> Some (Inl x, tr')
           | Inr d \<Rightarrow>
               (let items = as_items (js_or d responseData);
                    returnData' = returnData @ items
                in if full_page d (obj_get paginatedQs ''limit'')
                   then requestAllItems_loop fuel c fetch P method endpoint body paginatedQs
                          (offset + int (length (as_items d))) returnData' tr'
                   else Some (Inr returnData', tr'))))"

definition requestAllItems ::
  "nat \<Rightarrow> TwentyCrmClient \<Rightarrow> transport \<Rightarrow> retry_policy \<Rightarrow> string \<Rightarrow> string
   \<Rightarrow> DataObject option \<Rightarrow> DataObject option \<Rightarrow> event list
   \<Rightarrow> ((thrown + jsval list) \<times> event list) option" where
  "requestAllItems fuel c fetch P method endpoint body qs tr =
     requestAllItems_loop fuel c fetch P method endpoint body (init_paginatedQs qs) 0 [] tr"

subsection \<open>Concurrent sub-calls\<close>

text \<open>
  \<^verbatim>\<open>searchRecords\<close> and \<^verbatim>\<open>bulkOperation\<close> start several sub-calls at once and await them
  with \<^verbatim>\<open>Promise.all\<close>. How their requests interleave on the wire is not fixed by the
  program. The model gives the sub-call at position \<open>i\<close> its own view \<open>fetches i\<close> of the
  transport (the answers that sub-call gets to its requests) and its own trace, and so
  covers every interleaving. \<^verbatim>\<open>Promise.all\<close> yields the values in position order and
  rejects when a sub-call rejects.
\<close>

fun Promise_all :: "('e + 'a) list \<Rightarrow> 'e + 'a list" where
  "Promise_all [] = Inr []"
| "Promise_all (Inl e # ps) = Inl e"
| "Promise_all (Inr x # ps) = (case Promise_all ps of Inl e \<Rightarrow> Inl e | Inr xs \<Rightarrow> Inr (x # xs))"

subsection \<open>searchRecords\<close>

text \<open>The body of the \<^verbatim>\<open>try\<close> block of one sub-call.\<close>

definition tag_item :: "string \<Rightarrow> jsval \<Rightarrow> jsval" where
  "tag_item objectType item = JObj (obj_set ''_objectType'' (JStr objectType) (spread item))"

definition search_try ::
  "TwentyCrmClient \<Rightarrow> transport \<Rightarrow> retry_policy \<Rightarrow> string \<Rightarrow> int \<Rightarrow> string
   \<Rightarrow> (thrown + jsval list) \<times> event list" where
  "search_try c fetch P query limit objectType =
     (case requestWithRetry c fetch P ''GET'' (''/rest/'' @ objectType) None
             (Some [(''search'', JStr query), (''limit'', JNum limit)]) no_override [] of
        (Inl err, tr) \<Rightarrow> (Inl err, tr)
      | (Inr resp, tr) \<Rightarrow>
          (case unwrap_data resp of
             Inl x \<Rightarrow> (Inl x, tr)
           | Inr data \<Rightarrow> (Inr (map (tag_item objectType) (as_items data)), tr)))"

text \<open>The sub-call: the \<^verbatim>\<open>try\<close> block and \<^verbatim>\<open>catch { return [] }\<close>.\<close>

definition search_one ::
  "TwentyCrmClient \<Rightarrow> transport \<Rightarrow> retry_policy \<Rightarrow> string \<Rightarrow> int \<Rightarrow> string
   \<Rightarrow> (thrown + jsval list) \<times> event list" where
  "search_one c fetch P query limit objectType =
     (case search_try c fetch P query limit objectType of
        (Inl err, tr) \<Rightarrow> (Inr [], tr)
      | (Inr items, tr) \<Rightarrow> (Inr items, tr))"

text \<open>\<^verbatim>\<open>limit: number = 20\<close>: \<open>None\<close> when the caller leaves the argument out.\<close>

definition search_limit :: "int option \<Rightarrow> int" where
  "search_limit limit = (case limit of None \<Rightarrow> 20 | Some l \<Rightarrow> l)"

definition searchRecords ::
  "TwentyCrmClient \<Rightarrow> (nat \<Rightarrow> transport) \<Rightarrow> retry_policy \<Rightarrow> string \<Rightarrow> string list \<Rightarrow> int option
   \<Rightarrow> (thrown + jsval list) \<times> event list list" where
  "searchRecords c fetches P query objectTypes limit =
     (let lmt = search_limit limit;
          searchPromises = map (\<lambda>i. search_one c (fetches i) P query lmt (objectTypes ! i))
                             [0..<length objectTypes]
      in (case Promise_all (map fst searchPromises) of
            Inl err \<Rightarrow> Inl err
          | Inr searchResults \<Rightarrow> Inr (concat searchResults),
          map snd searchPromises))"

subsection \<open>findRecordByField\<close>

text \<open>
  \<^verbatim>\<open>endpoints[resource] || `/rest/${resource}`\<close>, on the own properties of the table
  \<^verbatim>\<open>endpoints\<close>.
\<close>

definition getResourceEndpoint :: "string \<Rightarrow> string" where
  "getResourceEndpoint resource =
     (case map_of [(''company'', ''/rest/companies''),
                   (''person'', ''/rest/people''),
                   (''opportunity'', ''/rest/opportunities''),
                   (''note'', ''/rest/notes''),
                   (''task'', ''/rest/tasks''),
                   (''activity'', ''/rest/activities''),
                   (''attachment'', ''/rest/attachments'')] resource of
        Some e \<Rightarrow> e
      | None \<Rightarrow> ''/rest/'' @ resource)"

text \<open>
  The predicate given to \<^verbatim>\<open>data.find\<close>; it throws on a \<^verbatim>\<open>null\<close> row. \<open>toLowerCase\<close>
  is \<^verbatim>\<open>String.prototype.toLowerCase\<close>.
\<close>

definition field_matches :: "(string \<Rightarrow> string) \<Rightarrow> string \<Rightarrow> string \<Rightarrow> jsval \<Rightarrow> thrown + bool" where
  "field_matches toLowerCase fieldName fieldValue item =
     (case get_prop item fieldName of
        Inl x \<Rightarrow> Inl x
      | Inr itemValue \<Rightarrow>
          Inr (case itemValue of
                 JStr s \<Rightarrow> toLowerCase s = toLowerCase fieldValue
               | _ \<Rightarrow> js_String itemValue = fieldValue))"

text \<open>\<^verbatim>\<open>data.find(...)\<close>: the first row the predicate accepts, else \<^verbatim>\<open>undefined\<close>.\<close>

fun find_match :: "(string \<Rightarrow> string) \<Rightarrow> string \<Rightarrow> string \<Rightarrow> jsval list \<Rightarrow> thrown + jsval" where
  "find_match toLowerCase fieldName fieldValue [] = Inr JUndefined"
| "find_match toLowerCase fieldName fieldValue (item # items) =
     (case field_matches toLowerCase fieldName fieldValue item of
        Inl x \<Rightarrow> Inl x
      | Inr True \<Rightarrow> Inr item
      | Inr False \<Rightarrow> find_match toLowerCase fieldName fieldValue items)"

text \<open>The outer \<^verbatim>\<open>try\<close> block: the structured-filter request and its result.\<close>

definition primary_try ::
  "TwentyCrmClient \<Rightarrow> transport \<Rightarrow> retry_policy \<Rightarrow> string \<Rightarrow> string \<Rightarrow> string \<Rightarrow> event list
   \<Rightarrow> (thrown + jsval) \<times> event list" where
  "primary_try c fetch P endpoint fieldName fieldValue tr =
     (case requestWithRetry c fetch P ''GET'' endpoint None
             (Some [(''filter'', JSON_stringify_value (JObj [(fieldName, JObj [(''eq'', JStr fieldValue)])])),
                    (''limit'', JNum 1)]) no_override tr of
        (Inl err, tr') \<Rightarrow> (Inl err, tr')
      | (Inr resp, tr') \<Rightarrow>
          (case unwrap_data resp of
             Inl x \<Rightarrow> (Inl x, tr')
           | Inr data \<Rightarrow>
               (case data of
                  JArr (x # xs) \<Rightarrow> (Inr x, tr')
                | _ \<Rightarrow> (Inr JNull, tr'))))"

text \<open>The inner \<^verbatim>\<open>try\<close> block: the free-text search and the scan of its rows.\<close>

definition fallback_try ::
  "TwentyCrmClient \<Rightarrow> transport \<Rightarrow> retry_policy \<Rightarrow> (string \<Rightarrow> string) \<Rightarrow> string \<Rightarrow> string \<Rightarrow> string
   \<Rightarrow> event list \<Rightarrow> (thrown + jsval) \<times> event list" where
  "fallback_try c fetch P toLowerCase endpoint fieldName fieldValue tr =
     (case requestWithRetry c fetch P ''GET'' endpoint None
             (Some [(''search'', JStr fieldValue), (''limit'', JNum 10)]) no_override tr of
        (Inl err, tr') \<Rightarrow> (Inl err, tr')
      | (Inr resp, tr') \<Rightarrow>
          (case unwrap_data resp of
             Inl x \<Rightarrow> (Inl x, tr')
           | Inr data \<Rightarrow>
               (case data of
                  JArr xs \<Rightarrow>
                    (case find_match toLowerCase fieldName fieldValue xs of
                       Inl x \<Rightarrow> (Inl x, tr')
                     | Inr match \<Rightarrow> (Inr (js_or match JNull), tr'))
                | _ \<Rightarrow> (Inr JNull, tr'))))"

definition findRecordByField ::
  "TwentyCrmClient \<Rightarrow> transport \<Rightarrow> retry_policy \<Rightarrow> (string \<Rightarrow> string) \<Rightarrow> string \<Rightarrow> string \<Rightarrow> string
   \<Rightarrow> event list \<Rightarrow> (thrown + jsval) \<times> event list" where
  "findRecordByField c fetch P toLowerCase resource fieldName fieldValue tr =
     (let endpoint = getResourceEndpoint resource in
      case primary_try c fetch P endpoint fieldName fieldValue tr of
        (Inr r, tr') \<Rightarrow> (Inr r, tr')
      | (Inl err, tr') \<Rightarrow>
          (case fallback_try c fetch P toLowerCase endpoint fieldName fieldValue tr' of
             (Inr r, tr'') \<Rightarrow> (Inr r, tr'')
           | (Inl err', tr'') \<Rightarrow> (Inr JNull, tr'')))"

subsection \<open>bulkOperation\<close>

datatype operation = Create | Update | Delete

text \<open>The body of the \<^verbatim>\<open>try\<close> block for one record, up to the request.\<close>

definition bulk_try ::
  "TwentyCrmClient \<Rightarrow> transport \<Rightarrow> retry_policy \<Rightarrow> operation \<Rightarrow> string \<Rightarrow> DataObject
   \<Rightarrow> (thrown + jsval) \<times> event list" where
  "bulk_try c fetch P operation endpoint item =
     (case operation of
        Create \<Rightarrow> requestWithRetry c fetch P ''POST'' endpoint (Some item) None no_override []
      | Update \<Rightarrow>
          (let id = obj_get item ''id'';
               updateData = obj_delete ''id'' item
           in requestWithRetry c fetch P ''PUT'' (endpoint @ ''/'' @ js_String id)
                (Some updateData) None no_override [])
      | Delete \<Rightarrow>
          (let id = obj_get item ''id''
           in requestWithRetry c fetch P ''DELETE'' (endpoint @ ''/'' @ js_String id)
                None None no_override []))"

text \<open>One record: the \<^verbatim>\<open>try\<close> block and the \<^verbatim>\<open>catch\<close> that turns an error into a result.\<close>

definition bulk_item ::
  "TwentyCrmClient \<Rightarrow> transport \<Rightarrow> retry_policy \<Rightarrow> operation \<Rightarrow> string \<Rightarrow> DataObject
   \<Rightarrow> (thrown + jsval) \<times> event list" where
  "bulk_item c fetch P operation endpoint item =
     (case bulk_try c fetch P operation endpoint item of
        (Inr resp, tr) \<Rightarrow>
          (Inr (JObj [(''success'', JBool True), (''data'', resp)]), tr)
      | (Inl err, tr) \<Rightarrow>
          (Inr (JObj [(''success'', JBool False), (''error'', JStr (error_message err)),
                      (''item'', JObj item)]), tr))"

definition concurrencyLimit :: nat where
  "concurrencyLimit = 5"

text \<open>The \<^verbatim>\<open>for\<close> loop over the batches, from index \<open>i\<close> on.\<close>

function bulk_loop ::
  "TwentyCrmClient \<Rightarrow> (nat \<Rightarrow> transport) \<Rightarrow> retry_policy \<Rightarrow> operation \<Rightarrow> string
   \<Rightarrow> DataObject list \<Rightarrow> nat \<Rightarrow> jsval list \<Rightarrow> event list list
   \<Rightarrow> (thrown + jsval list) \<times> event list list" where
  "bulk_loop c fetches P operation endpoint items i results traces =
     (if i < length items then
        (let batch = take concurrencyLimit (drop i items);
             promises = map (\<lambda>j. bulk_item c (fetches (i + j)) P operation endpoint (batch ! j))
                          [0..<length batch]
         in case Promise_all (map fst promises) of
              Inl err \<Rightarrow> (Inl err, traces @ map snd promises)
            | Inr batchResults \<Rightarrow>
                bulk_loop c fetches P operation endpoint items (i + concurrencyLimit)
                  (results @ batchResults) (traces @ map snd promises))
      else (Inr results, traces))"
  by pat_completeness auto
termination
  by (relation "measure (\<lambda>(c, fetches, P, operation, endpoint, items, i, results, traces).
        length items - i)") (auto simp: concurrencyLimit_def)

declare bulk_loop.simps [simp del]

definition bulkOperation ::
  "TwentyCrmClient \<Rightarrow> (nat \<Rightarrow> transport) \<Rightarrow> retry_policy \<Rightarrow> operation \<Rightarrow> string
   \<Rightarrow> DataObject list \<Rightarrow> (thrown + jsval list) \<times> event list list" where
  "bulkOperation c fetches P operation resource items =
     bulk_loop c fetches P operation (getResourceEndpoint resource) items 0 [] []"

section \<open>Notions used in the properties\<close>

text \<open>Two slashes meet at position \<open>n\<close> of \<open>s\<close>: one just before it and one at it.\<close>

definition doubled_slash_at :: "nat \<Rightarrow> string \<Rightarrow> bool" where
  "doubled_slash_at n s = (0 < n \<and> n < length s \<and> s ! (n - 1) = CHR ''/'' \<and> s ! n = CHR ''/'')"


text \<open>
  The request of round \<open>i\<close> of a pagination run with the numeric limit \<open>L\<close>: the query
  mapping with its limit and the offset \<open>i * L\<close>.
\<close>

definition page_request ::
  "TwentyCrmClient \<Rightarrow> string \<Rightarrow> string \<Rightarrow> DataObject option \<Rightarrow> DataObject option \<Rightarrow> int \<Rightarrow> nat
   \<Rightarrow> http_request" where
  "page_request c method endpoint body qs L i =
     build_request c method endpoint body
       (Some (obj_set ''offset'' (JNum (int i * L)) (init_paginatedQs qs)))"

text \<open>The items \<^verbatim>\<open>requestAllItems\<close> takes from one response.\<close>

definition page_items :: "jsval \<Rightarrow> jsval list" where
  "page_items resp = (case unwrap_data resp of Inl x \<Rightarrow> [] | Inr data \<Rightarrow> as_items data)"

text \<open>
  The outcome of the request of one search sub-call, and what the sub-call contributes to the
  result of \<^verbatim>\<open>searchRecords\<close>.
\<close>

definition search_request_outcome ::
  "TwentyCrmClient \<Rightarrow> transport \<Rightarrow> retry_policy \<Rightarrow> string \<Rightarrow> int \<Rightarrow> string \<Rightarrow> thrown + jsval" where
  "search_request_outcome c fetch P query lmt objectType =
     fst (requestWithRetry c fetch P ''GET'' (''/rest/'' @ objectType) None
            (Some [(''search'', JStr query), (''limit'', JNum lmt)]) no_override [])"

definition type_results ::
  "TwentyCrmClient \<Rightarrow> transport \<Rightarrow> retry_policy \<Rightarrow> string \<Rightarrow> int \<Rightarrow> string \<Rightarrow> jsval list" where
  "type_results c fetch P query lmt objectType =
     (case fst (search_try c fetch P query lmt objectType) of Inl err \<Rightarrow> [] | Inr items \<Rightarrow> items)"

text \<open>The result object that \<^verbatim>\<open>bulkOperation\<close> makes for one record.\<close>

definition item_result ::
  "TwentyCrmClient \<Rightarrow> transport \<Rightarrow> retry_policy \<Rightarrow> operation \<Rightarrow> string \<Rightarrow> DataObject \<Rightarrow> jsval" where
  "item_result c fetch P operation endpoint item =
     (case fst (bulk_try c fetch P operation endpoint item) of
        Inr resp \<Rightarrow> JObj [(''success'', JBool True), (''data'', resp)]
      | Inl err \<Rightarrow> JObj [(''success'', JBool False), (''error'', JStr (error_message err)),
                         (''item'', JObj item)])"

text \<open>
  The two requests of \<^verbatim>\<open>findRecordByField\<close>: the structured filter, whose text is
  \<^verbatim>\<open>JSON.stringify({ [fieldName]: { eq: fieldValue } })\<close>, and the free-text search.
\<close>

definition filter_text :: "string \<Rightarrow> string \<Rightarrow> string" where
  "filter_text fieldName fieldValue =
     ''{'' @ JSON_quote fieldName @ '':{'' @ JSON_quote ''eq'' @ '':'' @ JSON_quote fieldValue @ ''}}''"

definition primary_request ::
  "TwentyCrmClient \<Rightarrow> transport \<Rightarrow> retry_policy \<Rightarrow> string \<Rightarrow> string \<Rightarrow> string \<Rightarrow> event list
   \<Rightarrow> (thrown + jsval) \<times> event list" where
  "primary_request c fetch P resource fieldName fieldValue tr =
     requestWithRetry c fetch P ''GET'' (getResourceEndpoint resource) None
       (Some [(''filter'', JStr (filter_text fieldName fieldValue)), (''limit'', JNum 1)]) no_override tr"

definition fallback_request ::
  "TwentyCrmClient \<Rightarrow> transport \<Rightarrow> retry_policy \<Rightarrow> string \<Rightarrow> string \<Rightarrow> event list
   \<Rightarrow> (thrown + jsval) \<times> event list" where
  "fallback_request c fetch P resource fieldValue tr =
     requestWithRetry c fetch P ''GET'' (getResourceEndpoint resource) None
       (Some [(''search'', JStr fieldValue), (''limit'', JNum 10)]) no_override tr"

subsection \<open>A policy and the responses of the test suite\<close>

text \<open>
  Modelled from the spec: \<^verbatim>\<open>getErrorContext\<close> of the absent \<^verbatim>\<open>retry.ts\<close>. Known status
  codes and the connection-refused code map to a phrase, and \<open>Failed after N attempt(s)\<close>
  follows when the attempt index is positive, \<open>N\<close> being the number of attempts made. The
  spec does not give the punctuation; each part ends with a full stop and a space here.
\<close>

definition thrown_status :: "thrown \<Rightarrow> int option" where
  "thrown_status t =
     (case t of
        ErrorObj e \<Rightarrow>
          (case statusCode e of
             Some n \<Rightarrow> Some (int n)
           | None \<Rightarrow> (case response e of Some (n, hs) \<Rightarrow> Some (int n) | None \<Rightarrow> None))
      | OtherThrown (JObj kvs) \<Rightarrow>
          (case obj_get kvs ''statusCode'' of
             JNum n \<Rightarrow> Some n
           | _ \<Rightarrow> (case obj_get kvs ''response'' of
                     JObj r \<Rightarrow> (case obj_get r ''status'' of JNum n \<Rightarrow> Some n | _ \<Rightarrow> None)
                   | _ \<Rightarrow> None))
      | OtherThrown v \<Rightarrow> None)"

definition thrown_code :: "thrown \<Rightarrow> string option" where
  "thrown_code t =
     (case t of
        ErrorObj e \<Rightarrow> code e
      | OtherThrown (JObj kvs) \<Rightarrow> (case obj_get kvs ''code'' of JStr c \<Rightarrow> Some c | _ \<Rightarrow> None)
      | OtherThrown v \<Rightarrow> None)"

definition spec_getErrorContext :: "thrown \<Rightarrow> nat \<Rightarrow> real option \<Rightarrow> string" where
  "spec_getErrorContext t attempt retries =
     (if thrown_status t = Some 429 then ''Rate limit exceeded. ''
      else if thrown_status t = Some 503 then ''Service temporarily unavailable. ''
      else if thrown_status t = Some 502 \<or> thrown_status t = Some 504 then ''Server gateway error. ''
      else if thrown_code t = Some ''ECONNREFUSED'' then ''Connection refused. ''
      else [])
     @ (if 0 < attempt then ''Failed after '' @ string_of_nat (attempt + 1) @ '' attempt(s). '' else [])"

text \<open>
  Modelled from the spec: one retry policy as section 4.2 describes the absent \<^verbatim>\<open>retry.ts\<close>:
  three retries and a base delay of 1000 ms by default, the classifier and the context string
  above, the delay \<open>baseDelayMs * 2 ^ attempt\<close> capped at \<open>maxDelayMs\<close> with the jitter drawn
  as 0, and errors without a \<^verbatim>\<open>Retry-After\<close> header. The default cap is not given by the spec.
  The concrete instances below use it; the general theorems hold for every policy.
\<close>

definition spec_policy :: retry_policy where
  "spec_policy =
     \<lparr>DEFAULT_RETRY_CONFIG =
        \<lparr>default_maxRetries = 3, default_baseDelayMs = 1000, default_maxDelayMs = 30000,
         default_jitterFactor = 1 / 4\<rparr>,
      isRetryableError = spec_isRetryableError,
      calculateDelay = (\<lambda>attempt config seed.
        case (baseDelayMs config, maxDelayMs config) of
          (Some b, Some m) \<Rightarrow> nat \<lfloor>min m (b * 2 ^ attempt)\<rfloor>
        | _ \<Rightarrow> 0),
      extractRateLimitInfo = (\<lambda>t. None),
      getErrorContext = spec_getErrorContext\<rparr>"

text \<open>
  \<^verbatim>\<open>mockResponse(data)\<close> and \<^verbatim>\<open>mockErrorResponse(status, body)\<close> of
  \<^verbatim>\<open>tests/client.test.ts\<close>, and the client its tests construct.
\<close>

definition mockResponse :: "jsval \<Rightarrow> fetch_result" where
  "mockResponse data =
     Responded \<lparr>resp_ok = True, resp_status = 200, resp_headers = [],
                resp_text = (case JSON_stringify data of Some s \<Rightarrow> s | None \<Rightarrow> []),
                resp_json = Inr data\<rparr>"

definition mockErrorResponse :: "nat \<Rightarrow> string \<Rightarrow> fetch_result" where
  "mockErrorResponse n body =
     Responded \<lparr>resp_ok = False, resp_status = n, resp_headers = [], resp_text = body,
                resp_json = Inl []\<rparr>"

definition test_client :: TwentyCrmClient where
  "test_client = constructor \<lparr>apiUrl = ''https://crm.example.com'', cred_apiKey = ''test-key''\<rparr>"

section \<open>Properties\<close>

subsection \<open>Query parameters and JSON text\<close>

lemma mem_keys_params_set: "(k' \<in> fst ` set (params_set k v ps)) = (k' = k \<or> k' \<in> fst ` set ps)"
  by (induction ps) (force split: if_splits)+

lemma keys_params_set: "fst ` set (params_set k v ps) = insert k (fst ` set ps)"
  using mem_keys_params_set [of _ k v ps] by blast

lemma keys_build_params:
  "fst ` set (build_params q ps) = fst ` set ps \<union> {k. \<exists>v. (k, v) \<in> set q \<and> transmittable v}"
proof (induction q arbitrary: ps)
  case Nil
  then show ?case by simp
next
  case (Cons kv q)
  obtain k v where kv: "kv = (k, v)" by (cases kv)
  show ?case
    unfolding kv build_params.simps Cons.IH
    by (auto simp: keys_params_set)
qed

lemma set_params_set: "(k', s) \<in> set (params_set k v ps) \<Longrightarrow> (k', s) \<in> set ps \<or> (k' = k \<and> s = v)"
  by (induction ps) (auto split: if_splits)

lemma values_build_params:
  "(k, s) \<in> set (build_params q ps) \<Longrightarrow>
     (k, s) \<in> set ps \<or> (\<exists>v. (k, v) \<in> set q \<and> transmittable v \<and> s = js_String v)"
proof (induction q arbitrary: ps)
  case Nil
  then show ?case by simp
next
  case (Cons kv q)
  obtain k' v' where kv: "kv = (k', v')" by (cases kv)
  from Cons.prems have "(k, s) \<in> set (build_params q (if transmittable v' then params_set k' (js_String v') ps else ps))"
    by (simp add: kv)
  from Cons.IH [OF this] show ?case
    by (auto simp: kv dest: set_params_set split: if_splits)
qed

lemma JSON_stringify_None: "(JSON_stringify v = None) = (v = JUndefined)"
  by (cases v) auto

lemma stringify_props_filter:
  "stringify_props (filter (\<lambda>kv. snd kv \<noteq> JUndefined) b) = stringify_props b"
proof (induction b)
  case Nil
  then show ?case by simp
next
  case (Cons kv b)
  obtain k v where kv: "kv = (k, v)" by (cases kv)
  show ?case using Cons.IH
    by (cases "v = JUndefined") (auto simp: kv JSON_stringify_None split: option.splits)
qed

subsection \<open>C1: values that are not transmitted\<close>

text \<open>
  C1 (amended). The URL that \<^verbatim>\<open>request\<close> emits is the base URL, the endpoint and, after
  a question mark, the serialised parameters. A key is among the parameters exactly when the
  query mapping gives it a value other than \<^verbatim>\<open>undefined\<close>, \<^verbatim>\<open>null\<close> and the empty
  string, and each parameter value is the string coercion of such a value. The body mapping
  is not filtered: when a body is sent it is the JSON text of the whole mapping, from which
  only the keys whose value is \<^verbatim>\<open>undefined\<close> are missing.
\<close>

theorem request_filters_query_not_body:
  "req_url (build_request c method endpoint body (Some q))
     = baseUrl c @ endpoint
       @ (if params_toString (request_params (Some q)) = [] then []
          else ''?'' @ params_toString (request_params (Some q)))
   \<and> (\<forall>k. (k \<in> fst ` set (request_params (Some q)))
          = (\<exists>v. (k, v) \<in> set q \<and> v \<noteq> JUndefined \<and> v \<noteq> JNull \<and> v \<noteq> JStr []))
   \<and> (\<forall>k s. (k, s) \<in> set (request_params (Some q)) \<longrightarrow>
          (\<exists>v. (k, v) \<in> set q \<and> v \<noteq> JUndefined \<and> v \<noteq> JNull \<and> v \<noteq> JStr [] \<and> s = js_String v))
   \<and> req_body (build_request c method endpoint (Some b) qs)
       = (if b \<noteq> [] \<and> toUpperCase method \<noteq> ''GET'' \<and> toUpperCase method \<noteq> ''DELETE''
          then JSON_stringify (JObj (filter (\<lambda>kv. snd kv \<noteq> JUndefined) b)) else None)"
proof -
  have u: "req_url (build_request c method endpoint body (Some q))
     = baseUrl c @ endpoint
       @ (if params_toString (request_params (Some q)) = [] then []
          else ''?'' @ params_toString (request_params (Some q)))"
    by (simp add: build_request_def request_url_def query_suffix_def Let_def)
  have k: "\<forall>k. (k \<in> fst ` set (request_params (Some q)))
          = (\<exists>v. (k, v) \<in> set q \<and> v \<noteq> JUndefined \<and> v \<noteq> JNull \<and> v \<noteq> JStr [])"
    by (cases q) (auto simp: request_params_def keys_build_params transmittable_def simp del: build_params.simps)
  have v: "\<forall>k s. (k, s) \<in> set (request_params (Some q)) \<longrightarrow>
          (\<exists>v. (k, v) \<in> set q \<and> v \<noteq> JUndefined \<and> v \<noteq> JNull \<and> v \<noteq> JStr [] \<and> s = js_String v)"
  proof (intro allI impI)
    fix k s assume "(k, s) \<in> set (request_params (Some q))"
    then have "(k, s) \<in> set (build_params q [])"
      by (auto simp: request_params_def split: if_splits)
    from values_build_params [OF this] show "\<exists>v. (k, v) \<in> set q \<and> v \<noteq> JUndefined \<and> v \<noteq> JNull \<and> v \<noteq> JStr [] \<and> s = js_String v"
      by (auto simp: transmittable_def)
  qed
  have b: "req_body (build_request c method endpoint (Some b) qs)
       = (if b \<noteq> [] \<and> toUpperCase method \<noteq> ''GET'' \<and> toUpperCase method \<noteq> ''DELETE''
          then JSON_stringify (JObj (filter (\<lambda>kv. snd kv \<noteq> JUndefined) b)) else None)"
    by (simp add: build_request_def request_body_def stringify_props_filter)
  from u k v b show ?thesis by blast
qed

text \<open>
  C1, as stated, fails for the body: a body whose values are \<^verbatim>\<open>null\<close> and the empty
  string is transmitted with both keys.
\<close>

theorem request_body_keeps_null_and_empty:
  \<open>req_body (build_request \<lparr>baseUrl = ''https://crm.example.com'', apiKey = ''k''\<rparr> ''POST'' ''/rest/notes''
      (Some [(''title'', JNull), (''note'', JStr [])]) None) = Some ''{"title":null,"note":""}''\<close>
  by (simp add: build_request_def request_body_def toUpperCase_def upper_char_def JSON_quote_def json_escape_def)


text \<open>C1, at a query mapping with a null and an empty value and a body with an undefined one.\<close>

theorem request_filters_query_not_body_witness:
  \<open>''page'' \<notin> fst ` set (request_params (Some [(''search'', JStr ''acme''), (''page'', JNull), (''cursor'', JStr [])]))
   \<and> (''search'', ''acme'') \<in> set (request_params (Some [(''search'', JStr ''acme''), (''page'', JNull), (''cursor'', JStr [])]))
   \<and> req_url (build_request \<lparr>baseUrl = ''https://crm.example.com'', apiKey = ''k''\<rparr> ''POST'' ''/rest/notes'' None
        (Some [(''search'', JStr ''acme''), (''page'', JNull), (''cursor'', JStr [])]))
       = ''https://crm.example.com/rest/notes?search=acme''
   \<and> req_body (build_request \<lparr>baseUrl = ''https://crm.example.com'', apiKey = ''k''\<rparr> ''POST'' ''/rest/notes''
        (Some [(''title'', JStr ''a''), (''position'', JUndefined)]) None) = Some ''{"title":"a"}''\<close>
  using request_filters_query_not_body [of "\<lparr>baseUrl = ''https://crm.example.com'', apiKey = ''k''\<rparr>" "''POST''" "''/rest/notes''" None
          "[(''search'', JStr ''acme''), (''page'', JNull), (''cursor'', JStr [])]"
          "[(''title'', JStr ''a''), (''position'', JUndefined)]" None]
  by (simp add: request_params_def transmittable_def params_toString_def form_encode_def
        form_encode_char_def utf8_bytes_def percent_byte_def form_unreserved_def toUpperCase_def upper_char_def JSON_quote_def json_escape_def)

subsection \<open>C8: the join of base URL and endpoint\<close>

text \<open>
  C8, as stated, fails: the constructor removes one trailing slash, so a base URL that ends in
  two slashes still meets the endpoint's slash.
\<close>

theorem two_trailing_slashes_double_the_join:
  "doubled_slash_at (length (baseUrl (constructor \<lparr>apiUrl = ''https://crm.example.com//'', cred_apiKey = ''k''\<rparr>)))
     (req_url (build_request (constructor \<lparr>apiUrl = ''https://crm.example.com//'', cred_apiKey = ''k''\<rparr>)
        ''GET'' ''/rest/companies'' None None))"
  by (simp add: doubled_slash_at_def constructor_def strip_trailing_slash_def build_request_def
        request_url_def query_suffix_def request_params_def params_toString_def)

text \<open>
  C8 (amended). For a base URL that ends in exactly one slash, the constructed URL is the base
  URL without that slash, followed by the endpoint and the query suffix, and no two slashes
  meet where base URL and endpoint are joined.
\<close>

theorem no_doubled_slash_at_join:
  assumes "apiUrl credentials = b @ ''/''" and "b = [] \<or> last b \<noteq> CHR ''/''"
  shows "req_url (build_request (constructor credentials) method endpoint body qs)
           = b @ endpoint @ query_suffix qs
         \<and> \<not> doubled_slash_at (length (baseUrl (constructor credentials)))
               (req_url (build_request (constructor credentials) method endpoint body qs))"
proof -
  have base: "baseUrl (constructor credentials) = b"
    using assms(1) by (simp add: constructor_def strip_trailing_slash_def)
  have url: "req_url (build_request (constructor credentials) method endpoint body qs)
           = b @ endpoint @ query_suffix qs"
    by (simp add: build_request_def request_url_def base)
  have "\<not> doubled_slash_at (length b) (b @ endpoint @ query_suffix qs)"
  proof (cases "b = []")
    case True
    then show ?thesis by (simp add: doubled_slash_at_def)
  next
    case False
    with assms(2) have "(b @ endpoint @ query_suffix qs) ! (length b - 1) \<noteq> CHR ''/''"
      by (simp add: nth_append last_conv_nth)
    then show ?thesis by (simp add: doubled_slash_at_def)
  qed
  with base url show ?thesis by simp
qed

text \<open>C8, at the base URL of the test suite.\<close>

theorem no_doubled_slash_at_join_witness:
  "apiUrl \<lparr>apiUrl = ''https://crm.example.com/'', cred_apiKey = ''key''\<rparr> = ''https://crm.example.com'' @ ''/''
   \<and> last ''https://crm.example.com'' \<noteq> CHR ''/''
   \<and> req_url (build_request (constructor \<lparr>apiUrl = ''https://crm.example.com/'', cred_apiKey = ''key''\<rparr>)
        ''GET'' ''/rest/companies'' None None) = ''https://crm.example.com/rest/companies''
   \<and> \<not> doubled_slash_at (length (baseUrl (constructor \<lparr>apiUrl = ''https://crm.example.com/'', cred_apiKey = ''key''\<rparr>)))
        (req_url (build_request (constructor \<lparr>apiUrl = ''https://crm.example.com/'', cred_apiKey = ''key''\<rparr>)
        ''GET'' ''/rest/companies'' None None))"
  using no_doubled_slash_at_join [of "\<lparr>apiUrl = ''https://crm.example.com/'', cred_apiKey = ''key''\<rparr>" "''https://crm.example.com''"
            "''GET''" "''/rest/companies''" None None]
  by (auto simp: query_suffix_def request_params_def params_toString_def)

subsection \<open>The retry loop\<close>

lemma fetched_append: "fetched (xs @ ys) = fetched xs @ fetched ys"
  by (induction xs rule: fetched.induct) auto

lemma request_eq:
  "request c fetch method endpoint body qs tr =
     (read_response (fetch (fetched tr) (build_request c method endpoint body qs)),
      tr @ [Fetch (build_request c method endpoint body qs)])"
  by (simp add: request_def Let_def)

lemma attempt_le_bound: "attempt_le a m \<Longrightarrow> a < attempts_bound m"
  by (auto simp: attempt_le_def attempts_bound_def split: option.splits) linarith


lemma attempt_le_count [simp]: "attempt_le a (Some (real n)) = (a \<le> n)"
  by (simp add: attempt_le_def)

lemma attempt_lt_count [simp]: "attempt_lt a (Some (real n)) = (a < n)"
  by (simp add: attempt_lt_def)


lemma maxRetries_default:
  "maxRetries (merge_config d no_override) = Some (real (default_maxRetries d))"
  by (simp add: merge_config_def no_override_def)

lemma loop_unfold:
  "attempt_le attempt (maxRetries config) \<Longrightarrow>
   requestWithRetry_loop c fetch P config method endpoint body qs attempt lastError tr =
     (let req = build_request c method endpoint body qs; tr' = tr @ [Fetch req] in
      case read_response (fetch (fetched tr) req) of
        Inr v \<Rightarrow> (Inr v, tr')
      | Inl err \<Rightarrow>
          if \<not> (isRetryableError P err \<and> attempt_lt attempt (maxRetries config)) then
            (Inl (new_Error (''Twenty CRM API error: ''
                    @ getErrorContext P err attempt (maxRetries config) @ error_message err)), tr')
          else requestWithRetry_loop c fetch P config method endpoint body qs (Suc attempt)
                 (Some err) (tr' @ [Sleep (retry_delay P config err attempt (length tr'))]))"
  by (subst requestWithRetry_loop.simps) (simp add: request_eq Let_def split: sum.splits)

lemma loop_exit:
  "\<not> attempt_le attempt (maxRetries config) \<Longrightarrow>
   requestWithRetry_loop c fetch P config method endpoint body qs attempt lastError tr =
     (Inl (case lastError of Some e \<Rightarrow> e | None \<Rightarrow> OtherThrown JUndefined), tr)"
  by (subst requestWithRetry_loop.simps) simp

lemma loop_raises_plain:
  "maxRetries config = Some (real n) \<Longrightarrow> attempt \<le> n \<Longrightarrow>
   requestWithRetry_loop c fetch P config method endpoint body qs attempt lastError tr = (Inl t, tr')
   \<Longrightarrow> \<exists>msg. t = new_Error msg"
proof (induction "n - attempt" arbitrary: attempt lastError tr)
  case 0
  then have "attempt = n" by simp
  with "0.prems" show ?case
    by (auto simp: loop_unfold Let_def split: sum.splits)
next
  case (Suc j)
  let ?req = "build_request c method endpoint body qs"
  have le: "attempt_le attempt (maxRetries config)" using Suc.prems(1,2) by simp
  show ?case
  proof (cases "read_response (fetch (fetched tr) ?req)")
    case (Inr v)
    with Suc.prems le show ?thesis by (simp add: loop_unfold Let_def)
  next
    case (Inl err)
    show ?thesis
    proof (cases "isRetryableError P err")
      case False
      with Inl Suc.prems le show ?thesis by (auto simp: loop_unfold Let_def)
    next
      case True
      have lt: "attempt < n" using Suc.hyps(2) by simp
      let ?tr1 = "tr @ [Fetch ?req]"
      have rec: "requestWithRetry_loop c fetch P config method endpoint body qs (Suc attempt)
                 (Some err) (?tr1 @ [Sleep (retry_delay P config err attempt (length ?tr1))]) = (Inl t, tr')"
        using True Inl lt Suc.prems le by (simp add: loop_unfold Let_def)
      have "j = n - Suc attempt" using Suc.hyps(2) by simp
      from Suc.hyps(1) [OF this Suc.prems(1) _ rec] lt show ?thesis by simp
    qed
  qed
qed

subsection \<open>C9: what the retrying executor raises\<close>

text \<open>
  C9 (amended). Let the \<open>maxRetries\<close> that a call of \<^verbatim>\<open>requestWithRetry\<close> works with
  (the caller's, or else the default) be a non-negative integer \<open>n\<close>. Then whatever the call
  raises is a fresh \<^verbatim>\<open>Error\<close> that carries a message and nothing else: neither the status
  code nor the response snapshot (status and headers) of the error that \<^verbatim>\<open>request\<close>
  raised, nor a network error code.
\<close>

theorem requestWithRetry_raises_plain_error:
  assumes "maxRetries (merge_config (DEFAULT_RETRY_CONFIG P) retryConfig) = Some (real n)"
    and "fst (requestWithRetry c fetch P method endpoint body qs retryConfig tr) = Inl t"
  shows "\<exists>msg. t = ErrorObj \<lparr>message = msg, statusCode = None, response = None, code = None\<rparr>"
proof -
  obtain tr' where "requestWithRetry c fetch P method endpoint body qs retryConfig tr = (Inl t, tr')"
    using assms(2) by (cases "requestWithRetry c fetch P method endpoint body qs retryConfig tr") simp
  then have "\<exists>msg. t = new_Error msg"
    unfolding requestWithRetry_def by (rule loop_raises_plain [OF assms(1), rotated]) simp
  then show ?thesis by (simp add: new_Error_def)
qed




subsection \<open>C3: the number of attempts\<close>


lemma read_mockErrorResponse:
  "read_response (mockErrorResponse n t) =
     Inl (ErrorObj \<lparr>message = ''Twenty CRM API error ('' @ string_of_nat n @ ''): '' @ t,
                    statusCode = Some n, response = Some (n, []), code = None\<rparr>)"
  by (simp add: read_response_def mockErrorResponse_def api_error_def)

lemma JSON_stringify_nonempty: "JSON_stringify v = Some s \<Longrightarrow> s \<noteq> []"
  by (cases v) (auto simp: JSON_quote_def string_of_int_def string_of_nat.simps [of "nat _"] split: if_splits)

lemma read_mockResponse: "v \<noteq> JUndefined \<Longrightarrow> read_response (mockResponse v) = Inr v"
  by (cases "JSON_stringify v")
     (auto simp: read_response_def mockResponse_def JSON_stringify_None dest: JSON_stringify_nonempty)

lemma s503: "string_of_nat 503 = ''503''" by code_simp
lemma s401: "string_of_nat 401 = ''401''" by code_simp



text \<open>
  C9 at a 401 answer, with the default of three retries: the error of \<^verbatim>\<open>request\<close> has the
  status code and the response snapshot, the error of \<^verbatim>\<open>requestWithRetry\<close> has neither.
\<close>

theorem requestWithRetry_raises_plain_error_witness:
  "maxRetries (merge_config (DEFAULT_RETRY_CONFIG spec_policy) no_override) = Some (real 3)
   \<and> read_response (mockErrorResponse 401 ''Unauthorized'')
     = Inl (ErrorObj \<lparr>message = ''Twenty CRM API error (401): Unauthorized'',
                      statusCode = Some 401, response = Some (401, []), code = None\<rparr>)
   \<and> fst (requestWithRetry test_client (\<lambda>h r. mockErrorResponse 401 ''Unauthorized'') spec_policy
            ''GET'' ''/rest/companies'' None None no_override [])
     = Inl (ErrorObj \<lparr>message = ''Twenty CRM API error: Twenty CRM API error (401): Unauthorized'',
                      statusCode = None, response = None, code = None\<rparr>)"
proof -
  have cfg: "maxRetries (merge_config (DEFAULT_RETRY_CONFIG spec_policy) no_override) = Some (real 3)"
    by (simp add: spec_policy_def merge_config_def no_override_def)
  have ev: "fst (requestWithRetry test_client (\<lambda>h r. mockErrorResponse 401 ''Unauthorized'') spec_policy
            ''GET'' ''/rest/companies'' None None no_override [])
     = Inl (new_Error ''Twenty CRM API error: Twenty CRM API error (401): Unauthorized'')"
    by (simp add: requestWithRetry_def loop_unfold Let_def read_mockErrorResponse s401
          spec_policy_def merge_config_def no_override_def spec_isRetryableError_def attempt_le_def
          retryable_statuses_def retryable_codes_def transient_message_def
          spec_getErrorContext_def thrown_status_def thrown_code_def error_message_def)
  from requestWithRetry_raises_plain_error [OF cfg ev] cfg ev show ?thesis
    by (simp add: new_Error_def read_mockErrorResponse s401)
qed

text \<open>
  C9, as stated, fails when \<open>maxRetries\<close> is not a non-negative integer. With
  \<^verbatim>\<open>{ maxRetries: 1.5 }\<close> against a transport that always answers 503 the loop makes two
  attempts, waits after each, and ends on its condition; the call then throws \<open>lastError\<close>,
  the error of \<^verbatim>\<open>request\<close> itself with its status code and its response snapshot. With
  \<^verbatim>\<open>{ maxRetries: undefined }\<close> or \<^verbatim>\<open>{ maxRetries: -1 }\<close> the loop makes no attempt and the
  call throws \<^verbatim>\<open>undefined\<close>.
\<close>

theorem requestWithRetry_throws_lastError:
  "fst (requestWithRetry test_client (\<lambda>h r. mockErrorResponse 503 ''Unavailable'') spec_policy
          ''GET'' ''/rest/companies'' None None (no_override\<lparr>p_maxRetries := Present (Some (3 / 2))\<rparr>) [])
     = Inl (ErrorObj \<lparr>message = ''Twenty CRM API error (503): Unavailable'',
                      statusCode = Some 503, response = Some (503, []), code = None\<rparr>)
   \<and> length (fetched (snd (requestWithRetry test_client (\<lambda>h r. mockErrorResponse 503 ''Unavailable'') spec_policy
          ''GET'' ''/rest/companies'' None None (no_override\<lparr>p_maxRetries := Present (Some (3 / 2))\<rparr>) []))) = 2
   \<and> requestWithRetry test_client (\<lambda>h r. mockErrorResponse 503 ''Unavailable'') spec_policy
          ''GET'' ''/rest/companies'' None None (no_override\<lparr>p_maxRetries := Present None\<rparr>) []
     = (Inl (OtherThrown JUndefined), [])
   \<and> requestWithRetry test_client (\<lambda>h r. mockErrorResponse 503 ''Unavailable'') spec_policy
          ''GET'' ''/rest/companies'' None None (no_override\<lparr>p_maxRetries := Present (Some (- 1))\<rparr>) []
     = (Inl (OtherThrown JUndefined), [])"
  by (simp add: requestWithRetry_def loop_unfold loop_exit Let_def read_mockErrorResponse s503
        spec_policy_def merge_config_def no_override_def spec_isRetryableError_def
        attempt_le_def attempt_lt_def retryable_statuses_def)

subsection \<open>C2: pagination\<close>

text \<open>When the loop goes on, the limit is the number of items of the page.\<close>

lemma full_page_limit: "full_page d limit \<Longrightarrow> limit = JNum (int (length (as_items d)))"
  by (cases d) (auto simp: full_page_def as_items_def)

lemma requestWithRetry_ok:
  "read_response (fetch (fetched tr) (build_request c method endpoint body qs)) = Inr v \<Longrightarrow>
   requestWithRetry c fetch P method endpoint body qs no_override tr =
     (Inr v, tr @ [Fetch (build_request c method endpoint body qs)])"
  by (simp add: requestWithRetry_def loop_unfold Let_def maxRetries_default)

lemma fetched_map_Fetch: "fetched (map (\<lambda>i. Fetch (f i)) xs) = map f xs"
  by (induction xs) auto

lemma fetched_map_Fetch_comp: "fetched (map (Fetch \<circ> f) xs) = map f xs"
  by (induction xs) auto

lemma loop_pages:
  assumes lmt: "obj_get (init_paginatedQs qs) ''limit'' = JNum L"
    and len: "length pages = Suc n"
    and served: "\<forall>i\<le>n. read_response
                   (fetch (fetched tr @ map (page_request c method endpoint body qs L) [0..<i])
                      (page_request c method endpoint body qs L i)) = Inr (pages ! i)"
    and full: "\<forall>i<n. \<exists>xs. get_prop (pages ! i) ''data'' = Inr (JArr xs) \<and> int (length xs) = L"
    and last: "get_prop (pages ! n) ''data'' = Inr d" "\<not> full_page d (JNum L)"
  shows "i0 \<le> n \<Longrightarrow> n - i0 < fuel \<Longrightarrow>
         requestAllItems_loop fuel c fetch P method endpoint body (init_paginatedQs qs) (int i0 * L) acc
           (tr @ map (\<lambda>i. Fetch (page_request c method endpoint body qs L i)) [0..<i0])
         = Some (Inr (acc @ concat (map page_items (drop i0 pages))),
                 tr @ map (\<lambda>i. Fetch (page_request c method endpoint body qs L i)) [0..<Suc n])"
proof (induction "n - i0" arbitrary: i0 acc fuel)
  case 0
  then have i0: "i0 = n" by simp
  from "0.prems" obtain f where fuel: "fuel = Suc f" by (cases fuel) auto
  let ?T = "tr @ map (\<lambda>i. Fetch (page_request c method endpoint body qs L i)) [0..<n]"
  have "read_response (fetch (fetched ?T) (page_request c method endpoint body qs L n)) = Inr (pages ! n)"
    using served by (simp add: fetched_append fetched_map_Fetch fetched_map_Fetch_comp)
  then have rwr: "requestWithRetry c fetch P method endpoint body
       (Some (obj_set ''offset'' (JNum (int n * L)) (init_paginatedQs qs))) no_override ?T
     = (Inr (pages ! n), ?T @ [Fetch (page_request c method endpoint body qs L n)])"
    unfolding page_request_def by (rule requestWithRetry_ok)
  have items: "page_items (pages ! n) = as_items (js_or d (pages ! n))"
    using last(1) by (simp add: page_items_def unwrap_data_def)
  have dr: "drop n pages = [pages ! n]"
    using len by (metis Cons_nth_drop_Suc drop_all lessI order_refl)
  show ?case
    unfolding i0 fuel
    using rwr last lmt by (simp add: items dr)
next
  case (Suc m)
  then have lt: "i0 < n" by simp
  from Suc.prems obtain f where fuel: "fuel = Suc f" by (cases fuel) auto
  let ?rq = "page_request c method endpoint body qs L"
  let ?T = "tr @ map (\<lambda>i. Fetch (?rq i)) [0..<i0]"
  from full lt obtain xs where xs: "get_prop (pages ! i0) ''data'' = Inr (JArr xs)" "int (length xs) = L"
    by blast
  have "read_response (fetch (fetched ?T) (?rq i0)) = Inr (pages ! i0)"
    using served lt by (simp add: fetched_append fetched_map_Fetch fetched_map_Fetch_comp)
  then have rwr: "requestWithRetry c fetch P method endpoint body
       (Some (obj_set ''offset'' (JNum (int i0 * L)) (init_paginatedQs qs))) no_override ?T
     = (Inr (pages ! i0), ?T @ [Fetch (?rq i0)])"
    unfolding page_request_def by (rule requestWithRetry_ok)
  have fp: "full_page (JArr xs) (JNum L)" using xs(2) by (simp add: full_page_def)
  have items: "page_items (pages ! i0) = xs"
    using xs(1) by (simp add: page_items_def unwrap_data_def js_or_def as_items_def)
  have T': "?T @ [Fetch (?rq i0)] = tr @ map (\<lambda>i. Fetch (?rq i)) [0..<Suc i0]" by simp
  have off: "int i0 * L + int (length xs) = int (Suc i0) * L"
    using xs(2) by (simp add: algebra_simps)
  have m: "m = n - Suc i0" using Suc.hyps(2) by simp
  have f: "n - Suc i0 < f" using Suc.prems(2) fuel lt by simp
  have step: "requestAllItems_loop fuel c fetch P method endpoint body (init_paginatedQs qs) (int i0 * L) acc ?T
      = requestAllItems_loop f c fetch P method endpoint body (init_paginatedQs qs) (int (Suc i0) * L) (acc @ xs)
          (tr @ map (\<lambda>i. Fetch (?rq i)) [0..<Suc i0])"
    unfolding fuel using rwr xs(1) fp lmt
    by (simp add: js_or_def as_items_def off)
  have dr: "drop i0 pages = pages ! i0 # drop (Suc i0) pages"
    using len lt by (simp add: Cons_nth_drop_Suc)
  from Suc.hyps(1) [OF m _ f, of "acc @ xs"] lt
  show ?case unfolding step by (simp add: dr items)
qed


lemma params_set_fresh: "k \<notin> fst ` set ps \<Longrightarrow> params_set k v ps = ps @ [(k, v)]"
  by (induction ps) auto

lemma build_params_distinct:
  "distinct (map fst q) \<Longrightarrow> fst ` set ps \<inter> fst ` set q = {} \<Longrightarrow>
   build_params q ps
     = ps @ map (\<lambda>kv. (fst kv, js_String (snd kv))) (filter (\<lambda>kv. transmittable (snd kv)) q)"
proof (induction q arbitrary: ps)
  case Nil
  then show ?case by simp
next
  case (Cons kv q)
  obtain k v where kv: "kv = (k, v)" by (cases kv)
  from Cons.prems have fresh: "k \<notin> fst ` set ps" and d: "distinct (map fst q)"
    and kq: "k \<notin> fst ` set q" and disj: "fst ` set ps \<inter> fst ` set q = {}"
    by (auto simp: kv)
  show ?case
  proof (cases "transmittable v")
    case True
    have "fst ` set (ps @ [(k, js_String v)]) \<inter> fst ` set q = {}"
      using disj kq by auto
    from Cons.IH [OF d this] True fresh show ?thesis
      by (simp add: kv params_set_fresh)
  next
    case False
    from Cons.IH [OF d disj] False show ?thesis by (simp add: kv)
  qed
qed

lemma map_of_obj_set: "map_of (obj_set k v q) k' = (if k' = k then Some v else map_of q k')"
  by (induction q) auto

lemma mem_keys_obj_set: "(k' \<in> fst ` set (obj_set k v q)) = (k' = k \<or> k' \<in> fst ` set q)"
  by (induction q) (force split: if_splits)+

lemma keys_obj_set: "fst ` set (obj_set k v q) = insert k (fst ` set q)"
  using mem_keys_obj_set [of _ k v q] by blast

lemma distinct_obj_set: "distinct (map fst q) \<Longrightarrow> distinct (map fst (obj_set k v q))"
  by (induction q) (auto simp: keys_obj_set)

lemma request_params_distinct:
  "distinct (map fst q) \<Longrightarrow>
   request_params (Some q)
     = map (\<lambda>kv. (fst kv, js_String (snd kv))) (filter (\<lambda>kv. transmittable (snd kv)) q)"
  using build_params_distinct [of q "[]"] by (cases q) (auto simp: request_params_def)

lemma map_of_request_params:
  assumes "distinct (map fst q)" and "map_of q k = Some v" and "transmittable v"
  shows "map_of (request_params (Some q)) k = Some (js_String v)"
proof -
  have "map_of (filter (\<lambda>(k, v). transmittable v) q) k = Some v"
    using assms(2,3) by (rule map_of_filter_in)
  then have "map_of (map (\<lambda>(k, v). (k, js_String v)) (filter (\<lambda>(k, v). transmittable v) q)) k
     = Some (js_String v)"
    by (simp add: map_of_map)
  then show ?thesis
    by (simp add: request_params_distinct [OF assms(1)] case_prod_unfold)
qed

lemma distinct_init_paginatedQs:
  "distinct (map fst (case qs of None \<Rightarrow> [] | Some q \<Rightarrow> q)) \<Longrightarrow> distinct (map fst (init_paginatedQs qs))"
  by (simp add: init_paginatedQs_def Let_def distinct_obj_set)

lemma page_request_params:
  assumes "distinct (map fst (case qs of None \<Rightarrow> [] | Some q \<Rightarrow> q))"
    and "obj_get (init_paginatedQs qs) ''limit'' = JNum L"
  shows "map_of (request_params (Some (obj_set ''offset'' (JNum off) (init_paginatedQs qs)))) ''offset''
           = Some (string_of_int off)
       \<and> map_of (request_params (Some (obj_set ''offset'' (JNum off) (init_paginatedQs qs)))) ''limit''
           = Some (string_of_int L)"
proof -
  let ?pq = "obj_set ''offset'' (JNum off) (init_paginatedQs qs)"
  have d: "distinct (map fst ?pq)"
    using assms(1) by (intro distinct_obj_set distinct_init_paginatedQs)
  have "map_of (init_paginatedQs qs) ''limit'' = Some (JNum L)"
    using assms(2) by (auto simp: obj_get_def split: option.splits)
  then have l: "map_of ?pq ''limit'' = Some (JNum L)" by (simp add: map_of_obj_set)
  have o: "map_of ?pq ''offset'' = Some (JNum off)" by (simp add: map_of_obj_set)
  from map_of_request_params [OF d o] map_of_request_params [OF d l]
  show ?thesis by (simp add: transmittable_def)
qed

text \<open>
  C2 (amended). Let the numeric limit be \<open>L\<close> and let the server answer the request of round
  \<open>i\<close>, which carries the offset \<open>i * L\<close>, with the page \<open>pages ! i\<close>, where the pages
  \<open>0, \<dots>, n - 1\<close> hold an array of exactly \<open>L\<close> items under \<^verbatim>\<open>data\<close> and page \<open>n\<close> does
  not: its \<^verbatim>\<open>data\<close> is not an array, or an array whose length differs from \<open>L\<close>. Then
  \<^verbatim>\<open>requestAllItems\<close> returns (given fuel for \<open>n + 1\<close> rounds) the items of the pages
  \<open>0, \<dots>, n\<close> in page order, after exactly the \<open>n + 1\<close> requests of the rounds \<open>0, \<dots>, n\<close>.
  When the keys of the query mapping are distinct, the URL of round \<open>i\<close> has the parameters
  \<open>offset = i * L\<close> and \<open>limit = L\<close>.
\<close>

theorem requestAllItems_pages:
  assumes "obj_get (init_paginatedQs qs) ''limit'' = JNum L"
    and "length pages = Suc n"
    and "\<forall>i\<le>n. read_response
                   (fetch (fetched tr @ map (page_request c method endpoint body qs L) [0..<i])
                      (page_request c method endpoint body qs L i)) = Inr (pages ! i)"
    and "\<forall>i<n. \<exists>xs. get_prop (pages ! i) ''data'' = Inr (JArr xs) \<and> int (length xs) = L"
    and "get_prop (pages ! n) ''data'' = Inr d" and "\<not> full_page d (JNum L)"
    and "n < fuel"
  shows "requestAllItems fuel c fetch P method endpoint body qs tr
           = Some (Inr (concat (map page_items pages)),
                   tr @ map (\<lambda>i. Fetch (page_request c method endpoint body qs L i)) [0..<Suc n])
         \<and> (distinct (map fst (case qs of None \<Rightarrow> [] | Some q \<Rightarrow> q)) \<longrightarrow>
              (\<forall>i. req_url (page_request c method endpoint body qs L i)
                     = baseUrl c @ endpoint @ ''?''
                       @ params_toString (request_params
                           (Some (obj_set ''offset'' (JNum (int i * L)) (init_paginatedQs qs))))
                 \<and> map_of (request_params
                           (Some (obj_set ''offset'' (JNum (int i * L)) (init_paginatedQs qs)))) ''offset''
                     = Some (string_of_int (int i * L))
                 \<and> map_of (request_params
                           (Some (obj_set ''offset'' (JNum (int i * L)) (init_paginatedQs qs)))) ''limit''
                     = Some (string_of_int L)))"
proof -
  have run: "requestAllItems fuel c fetch P method endpoint body qs tr
           = Some (Inr (concat (map page_items pages)),
                   tr @ map (\<lambda>i. Fetch (page_request c method endpoint body qs L i)) [0..<Suc n])"
    using loop_pages [OF assms(1-6), of 0 fuel P "[]"] assms(7)
    by (simp add: requestAllItems_def)
  have wire: "req_url (page_request c method endpoint body qs L i)
                     = baseUrl c @ endpoint @ ''?''
                       @ params_toString (request_params
                           (Some (obj_set ''offset'' (JNum (int i * L)) (init_paginatedQs qs))))
                 \<and> map_of (request_params
                           (Some (obj_set ''offset'' (JNum (int i * L)) (init_paginatedQs qs)))) ''offset''
                     = Some (string_of_int (int i * L))
                 \<and> map_of (request_params
                           (Some (obj_set ''offset'' (JNum (int i * L)) (init_paginatedQs qs)))) ''limit''
                     = Some (string_of_int L)"
    if d: "distinct (map fst (case qs of None \<Rightarrow> [] | Some q \<Rightarrow> q))" for i
  proof -
    note pp = page_request_params [OF d assms(1), of "int i * L"]
    let ?ps = "request_params (Some (obj_set ''offset'' (JNum (int i * L)) (init_paginatedQs qs)))"
    from pp have "?ps \<noteq> []" by auto
    then obtain p ps where "?ps = p # ps" by (cases ?ps) auto
    then have "params_toString ?ps \<noteq> []"
      by (cases ps) (simp_all add: params_toString_def)
    then have "req_url (page_request c method endpoint body qs L i)
                 = baseUrl c @ endpoint @ ''?'' @ params_toString ?ps"
      by (simp add: page_request_def build_request_def request_url_def query_suffix_def Let_def)
    with pp show ?thesis by simp
  qed
  from run wire show ?thesis by blast
qed


lemma page_request_0:
  "page_request test_client ''GET'' ''/rest/companies'' None None 200 0 =
     \<lparr>req_url = ''https://crm.example.com/rest/companies?limit=200&offset=0'', req_method = ''GET'',
      req_headers = [(''Authorization'', ''Bearer test-key''), (''Content-Type'', ''application/json'')],
      req_body = None\<rparr>"
  by code_simp

lemma page_request_1:
  "page_request test_client ''GET'' ''/rest/companies'' None None 200 (Suc 0) =
     \<lparr>req_url = ''https://crm.example.com/rest/companies?limit=200&offset=200'', req_method = ''GET'',
      req_headers = [(''Authorization'', ''Bearer test-key''), (''Content-Type'', ''application/json'')],
      req_body = None\<rparr>"
  by code_simp

text \<open>
  C2 on 230 items served as a page of 200 and a page of 30, with the default limit 200:
  230 items, two requests, offsets 0 and 200.
\<close>

theorem requestAllItems_pages_witness:
  "requestAllItems 2 test_client
     (\<lambda>h r. if h = [] then mockResponse (JObj [(''data'', JArr (replicate 200 (JObj [(''id'', JStr ''a'')])))])
             else mockResponse (JObj [(''data'', JArr (replicate 30 (JObj [(''id'', JStr ''b'')])))]))
     spec_policy ''GET'' ''/rest/companies'' None None []
   = Some (Inr (replicate 200 (JObj [(''id'', JStr ''a'')]) @ replicate 30 (JObj [(''id'', JStr ''b'')])),
       [Fetch \<lparr>req_url = ''https://crm.example.com/rest/companies?limit=200&offset=0'', req_method = ''GET'',
               req_headers = [(''Authorization'', ''Bearer test-key''), (''Content-Type'', ''application/json'')],
               req_body = None\<rparr>,
        Fetch \<lparr>req_url = ''https://crm.example.com/rest/companies?limit=200&offset=200'', req_method = ''GET'',
               req_headers = [(''Authorization'', ''Bearer test-key''), (''Content-Type'', ''application/json'')],
               req_body = None\<rparr>])
   \<and> length (replicate 200 (JObj [(''id'', JStr ''a'')]) @ replicate 30 (JObj [(''id'', JStr ''b'')])) = 230"
proof -
  let ?a = "JObj [(''id'', JStr ''a'')]" and ?b = "JObj [(''id'', JStr ''b'')]"
  let ?p1 = "JObj [(''data'', JArr (replicate 200 ?a))]" and ?p2 = "JObj [(''data'', JArr (replicate 30 ?b))]"
  let ?fetch = "\<lambda>(h :: http_request list) (r :: http_request). if h = [] then mockResponse ?p1 else mockResponse ?p2"
  have h1: "obj_get (init_paginatedQs None) ''limit'' = JNum 200"
    by (simp add: init_paginatedQs_def obj_get_def js_or_def)
  have h2: "length [?p1, ?p2] = Suc (Suc 0)" by simp
  have h3: "\<forall>i\<le>Suc 0. read_response
              (?fetch (fetched [] @ map (page_request test_client ''GET'' ''/rest/companies'' None None 200) [0..<i])
                 (page_request test_client ''GET'' ''/rest/companies'' None None 200 i)) = Inr ([?p1, ?p2] ! i)"
    by (simp add: le_Suc_eq read_mockResponse)
  have h4: "\<forall>i<Suc 0. \<exists>xs. get_prop ([?p1, ?p2] ! i) ''data'' = Inr (JArr xs) \<and> int (length xs) = 200"
    by simp
  have h5: "get_prop ([?p1, ?p2] ! Suc 0) ''data'' = Inr (JArr (replicate 30 ?b))" by simp
  have h6: "\<not> full_page (JArr (replicate 30 ?b)) (JNum 200)" by (simp add: full_page_def)
  have h7: "Suc 0 < 2" by simp
  from requestAllItems_pages [OF h1 h2 h3 h4 h5 h6 h7, where P = spec_policy]
  show ?thesis
    by (simp add: page_items_def unwrap_data_def js_or_def as_items_def page_request_0 page_request_1)
qed

text \<open>
  C2, as stated, fails on a page longer than the limit: with limit 2 and a page of 3 rows the
  aggregation ends after that page, although its length is not less than the limit.
\<close>

theorem requestAllItems_stops_on_longer_page:
  "requestAllItems (Suc 0) test_client
     (\<lambda>h r. mockResponse (JObj [(''data'', JArr [JObj [(''id'', JStr ''1'')], JObj [(''id'', JStr ''2'')],
                                                JObj [(''id'', JStr ''3'')]])]))
     spec_policy ''GET'' ''/rest/companies'' None (Some [(''limit'', JNum 2)]) []
   = Some (Inr [JObj [(''id'', JStr ''1'')], JObj [(''id'', JStr ''2'')], JObj [(''id'', JStr ''3'')]],
       [Fetch \<lparr>req_url = ''https://crm.example.com/rest/companies?limit=2&offset=0'', req_method = ''GET'',
               req_headers = [(''Authorization'', ''Bearer test-key''), (''Content-Type'', ''application/json'')],
               req_body = None\<rparr>])"
proof -
  have rq: "build_request test_client ''GET'' ''/rest/companies'' None
              (Some (obj_set ''offset'' (JNum 0) (init_paginatedQs (Some [(''limit'', JNum 2)]))))
     = \<lparr>req_url = ''https://crm.example.com/rest/companies?limit=2&offset=0'', req_method = ''GET'',
               req_headers = [(''Authorization'', ''Bearer test-key''), (''Content-Type'', ''application/json'')],
               req_body = None\<rparr>"
    by code_simp
  have lmt: "obj_get (init_paginatedQs (Some [(''limit'', JNum 2)])) ''limit'' = JNum 2"
    by (simp add: init_paginatedQs_def obj_get_def js_or_def)
  show ?thesis
    by (simp add: requestAllItems_def requestWithRetry_ok read_mockResponse rq lmt full_page_def
          js_or_def as_items_def)
qed

subsection \<open>C5 and C10: fan-out search\<close>

lemma Promise_all_Inr: "Promise_all (map Inr xs) = Inr xs"
  by (induction xs) auto

lemma fst_search_one:
  "fst (search_one c fetch P query lmt objectType) = Inr (type_results c fetch P query lmt objectType)"
  by (simp add: search_one_def type_results_def split: prod.splits sum.splits)

lemma searchRecords_concat:
  "fst (searchRecords c fetches P query objectTypes limit)
     = Inr (concat (map (\<lambda>i. type_results c (fetches i) P query (search_limit limit) (objectTypes ! i))
                     [0..<length objectTypes]))"
proof -
  have "map fst (map (\<lambda>i. search_one c (fetches i) P query (search_limit limit) (objectTypes ! i))
                  [0..<length objectTypes])
      = map Inr (map (\<lambda>i. type_results c (fetches i) P query (search_limit limit) (objectTypes ! i))
                  [0..<length objectTypes])"
    by (simp add: fst_search_one)
  then show ?thesis
    by (simp add: searchRecords_def Let_def Promise_all_Inr del: map_map)
qed

lemma type_results_failed:
  "search_request_outcome c fetch P query lmt t = Inl err \<Longrightarrow> type_results c fetch P query lmt t = []"
  by (cases "requestWithRetry c fetch P ''GET'' (''/rest/'' @ t) None
            (Some [(''search'', JStr query), (''limit'', JNum lmt)]) no_override []")
     (simp add: search_request_outcome_def type_results_def search_try_def)

lemma type_results_ok:
  "search_request_outcome c fetch P query lmt t = Inr resp \<Longrightarrow> unwrap_data resp = Inr data \<Longrightarrow>
   type_results c fetch P query lmt t = map (tag_item t) (as_items data)"
  by (cases "requestWithRetry c fetch P ''GET'' (''/rest/'' @ t) None
            (Some [(''search'', JStr query), (''limit'', JNum lmt)]) no_override []")
     (simp add: search_request_outcome_def type_results_def search_try_def)

lemma get_prop_tag_item: "get_prop (tag_item t item) ''_objectType'' = Inr (JStr t)"
  by (simp add: tag_item_def map_of_obj_set)

lemma type_results_tagged:
  "r \<in> set (type_results c fetch P query lmt t) \<Longrightarrow> get_prop r ''_objectType'' = Inr (JStr t)"
  by (auto simp: type_results_def search_try_def get_prop_tag_item split: prod.splits sum.splits)

text \<open>
  C5. \<^verbatim>\<open>searchRecords\<close> never raises: it returns the concatenation, in the order of the
  resource types, of what each type contributes. A type whose request fails contributes
  nothing; a type whose request succeeds contributes the items of its response, each tagged
  with the type; and every contributed result carries its type under \<^verbatim>\<open>_objectType\<close>.
\<close>

theorem searchRecords_partial_results:
  "fst (searchRecords c fetches P query objectTypes limit)
     = Inr (concat (map (\<lambda>i. type_results c (fetches i) P query (search_limit limit) (objectTypes ! i))
                     [0..<length objectTypes]))
   \<and> (\<forall>i<length objectTypes.
        (\<forall>err. search_request_outcome c (fetches i) P query (search_limit limit) (objectTypes ! i) = Inl err
           \<longrightarrow> type_results c (fetches i) P query (search_limit limit) (objectTypes ! i) = [])
      \<and> (\<forall>resp data.
           search_request_outcome c (fetches i) P query (search_limit limit) (objectTypes ! i) = Inr resp
           \<and> unwrap_data resp = Inr data
           \<longrightarrow> type_results c (fetches i) P query (search_limit limit) (objectTypes ! i)
                 = map (tag_item (objectTypes ! i)) (as_items data))
      \<and> (\<forall>r \<in> set (type_results c (fetches i) P query (search_limit limit) (objectTypes ! i)).
           get_prop r ''_objectType'' = Inr (JStr (objectTypes ! i))))"
proof (intro conjI allI impI ballI)
  show "fst (searchRecords c fetches P query objectTypes limit)
     = Inr (concat (map (\<lambda>i. type_results c (fetches i) P query (search_limit limit) (objectTypes ! i))
                     [0..<length objectTypes]))"
    by (rule searchRecords_concat)
next
  fix i err
  assume "search_request_outcome c (fetches i) P query (search_limit limit) (objectTypes ! i) = Inl err"
  then show "type_results c (fetches i) P query (search_limit limit) (objectTypes ! i) = []"
    by (rule type_results_failed)
next
  fix i resp data
  assume "search_request_outcome c (fetches i) P query (search_limit limit) (objectTypes ! i) = Inr resp
           \<and> unwrap_data resp = Inr data"
  then show "type_results c (fetches i) P query (search_limit limit) (objectTypes ! i)
                 = map (tag_item (objectTypes ! i)) (as_items data)"
    using type_results_ok by blast
next
  fix i r
  assume "r \<in> set (type_results c (fetches i) P query (search_limit limit) (objectTypes ! i))"
  then show "get_prop r ''_objectType'' = Inr (JStr (objectTypes ! i))"
    by (rule type_results_tagged)
qed

text \<open>
  C10 (amended). A type whose request succeeds with a response other than \<^verbatim>\<open>null\<close> that is
  neither an array nor has an array under \<^verbatim>\<open>data\<close> contributes exactly one result: the
  response, or its \<^verbatim>\<open>data\<close> when that is truthy, with the tag added.
\<close>

theorem searchRecords_single_pseudo_match:
  assumes "i < length objectTypes"
    and "search_request_outcome c (fetches i) P query (search_limit limit) (objectTypes ! i) = Inr resp"
    and "resp \<noteq> JNull" and "resp \<noteq> JUndefined"
    and "\<not> isArray resp"
    and "\<forall>xs. get_prop resp ''data'' \<noteq> Inr (JArr xs)"
  shows "type_results c (fetches i) P query (search_limit limit) (objectTypes ! i)
           = [tag_item (objectTypes ! i) (case get_prop resp ''data'' of Inr d \<Rightarrow> js_or d resp | Inl x \<Rightarrow> resp)]
         \<and> fst (searchRecords c fetches P query objectTypes limit)
           = Inr (concat (map (\<lambda>j. type_results c (fetches j) P query (search_limit limit) (objectTypes ! j))
                     [0..<length objectTypes]))"
proof -
  from assms(3,4) obtain d where d: "get_prop resp ''data'' = Inr d"
    by (cases resp) auto
  have na: "\<not> isArray (js_or d resp)"
    using assms(5,6) d by (auto simp: js_or_def isArray_def split: jsval.splits)
  then have "as_items (js_or d resp) = [js_or d resp]"
    by (auto simp: as_items_def isArray_def split: jsval.splits)
  moreover have "unwrap_data resp = Inr (js_or d resp)" using d by (simp add: unwrap_data_def)
  ultimately have "type_results c (fetches i) P query (search_limit limit) (objectTypes ! i)
           = [tag_item (objectTypes ! i) (js_or d resp)]"
    using type_results_ok [OF assms(2)] by simp
  with d searchRecords_concat show ?thesis by simp
qed


lemma s500: "string_of_nat 500 = ''500''" by code_simp

lemma requestWithRetry_not_retryable:
  "read_response (fetch (fetched tr) (build_request c method endpoint body qs)) = Inl err \<Longrightarrow>
   \<not> isRetryableError P err \<Longrightarrow>
   requestWithRetry c fetch P method endpoint body qs no_override tr =
     (Inl (new_Error (''Twenty CRM API error: ''
        @ getErrorContext P err 0 (maxRetries (merge_config (DEFAULT_RETRY_CONFIG P) no_override))
        @ error_message err)),
      tr @ [Fetch (build_request c method endpoint body qs)])"
  by (simp add: requestWithRetry_def loop_unfold Let_def maxRetries_default)

lemma not_retryable_500:
  "\<not> isRetryableError spec_policy
       (ErrorObj \<lparr>message = ''Twenty CRM API error (500): Server error'',
                  statusCode = Some 500, response = Some (500, []), code = None\<rparr>)"
  by (simp add: spec_policy_def spec_isRetryableError_def retryable_statuses_def retryable_codes_def transient_message_def)

text \<open>
  C5 on the types companies and people, where the request for companies fails with status 500:
  only the row of people comes back, tagged.
\<close>

theorem searchRecords_partial_results_witness:
  "search_request_outcome test_client (\<lambda>h r. mockErrorResponse 500 ''Server error'') spec_policy ''test'' 20
      ''companies'' = Inl (new_Error ''Twenty CRM API error: Twenty CRM API error (500): Server error'')
   \<and> fst (searchRecords test_client
        (\<lambda>i h r. if i = 0 then mockErrorResponse 500 ''Server error''
                  else mockResponse (JObj [(''data'', JArr [JObj [(''id'', JStr ''1'')]])]))
        spec_policy ''test'' [''companies'', ''people''] None)
     = Inr [JObj [(''id'', JStr ''1''), (''_objectType'', JStr ''people'')]]"
proof -
  let ?F = "\<lambda>(i::nat) (h :: http_request list) (r :: http_request).
              if i = 0 then mockErrorResponse 500 ''Server error''
              else mockResponse (JObj [(''data'', JArr [JObj [(''id'', JStr ''1'')]])])"
  have o0: "search_request_outcome test_client (\<lambda>h r. mockErrorResponse 500 ''Server error'') spec_policy ''test'' 20
      ''companies'' = Inl (new_Error ''Twenty CRM API error: Twenty CRM API error (500): Server error'')"
    unfolding search_request_outcome_def
    by (subst requestWithRetry_not_retryable [where err = "ErrorObj \<lparr>message = ''Twenty CRM API error (500): Server error'',
                  statusCode = Some 500, response = Some (500, []), code = None\<rparr>"])
       (simp_all add: read_mockErrorResponse s500 not_retryable_500 error_message_def,
        simp add: spec_policy_def spec_getErrorContext_def thrown_status_def thrown_code_def)
  have o1: "search_request_outcome test_client (?F 1) spec_policy ''test'' 20 ''people''
      = Inr (JObj [(''data'', JArr [JObj [(''id'', JStr ''1'')]])])"
    by (simp add: search_request_outcome_def requestWithRetry_ok read_mockResponse)
  have u1: "unwrap_data (JObj [(''data'', JArr [JObj [(''id'', JStr ''1'')]])]) = Inr (JArr [JObj [(''id'', JStr ''1'')]])"
    by (simp add: unwrap_data_def js_or_def)
  note T = searchRecords_partial_results [of test_client ?F spec_policy "''test''" "[''companies'', ''people'']" None]
  from T have r0: "type_results test_client (?F 0) spec_policy ''test'' 20 ''companies'' = []"
    using o0 by (auto simp: search_limit_def)
  from T have r1: "type_results test_client (?F 1) spec_policy ''test'' 20 ''people''
      = map (tag_item ''people'') (as_items (JArr [JObj [(''id'', JStr ''1'')]]))"
    using o1 u1 by (auto simp: search_limit_def)
  from T have "fst (searchRecords test_client ?F spec_policy ''test'' [''companies'', ''people''] None)
     = Inr (type_results test_client (?F 0) spec_policy ''test'' 20 ''companies''
            @ type_results test_client (?F 1) spec_policy ''test'' 20 ''people'')"
    by (simp add: search_limit_def upt_rec)
  with r0 r1 o0 show ?thesis
    by (simp add: as_items_def tag_item_def)
qed

text \<open>C10 on an empty-object response: one result, which holds the tag only.\<close>

theorem searchRecords_single_pseudo_match_witness:
  "search_request_outcome test_client (\<lambda>h r. mockResponse (JObj [])) spec_policy ''acme'' 20 ''companies''
     = Inr (JObj [])
   \<and> fst (searchRecords test_client (\<lambda>i h r. mockResponse (JObj [])) spec_policy ''acme'' [''companies''] None)
     = Inr [JObj [(''_objectType'', JStr ''companies'')]]"
proof -
  have o: "search_request_outcome test_client (\<lambda>h r. mockResponse (JObj [])) spec_policy ''acme''
             (search_limit None) ([''companies''] ! 0) = Inr (JObj [])"
    by (simp add: search_request_outcome_def requestWithRetry_ok read_mockResponse search_limit_def)
  from searchRecords_single_pseudo_match [of 0 "[''companies'']" test_client "\<lambda>i h r. mockResponse (JObj [])" spec_policy "''acme''" None
               "JObj []", OF _ o] o
  show ?thesis
    by (simp add: isArray_def js_or_def tag_item_def search_limit_def)
qed

text \<open>
  A type whose request succeeds with the response \<^verbatim>\<open>null\<close> contributes no result: reading
  the \<^verbatim>\<open>data\<close> of the response throws inside the \<^verbatim>\<open>try\<close> block.
\<close>

lemma type_results_null:
  assumes "search_request_outcome c fetch P query lmt t = Inr resp"
    and "resp = JNull \<or> resp = JUndefined"
  shows "type_results c fetch P query lmt t = []"
  using assms
  by (cases "requestWithRetry c fetch P ''GET'' (''/rest/'' @ t) None
            (Some [(''search'', JStr query), (''limit'', JNum lmt)]) no_override []")
     (auto simp: search_request_outcome_def type_results_def search_try_def unwrap_data_def)

text \<open>
  C10, as stated, fails on the response \<^verbatim>\<open>null\<close>: reading its \<^verbatim>\<open>data\<close> throws inside the
  \<^verbatim>\<open>try\<close> block, and the type contributes no result.
\<close>

theorem searchRecords_null_response_contributes_nothing:
  "search_request_outcome test_client (\<lambda>h r. mockResponse JNull) spec_policy ''acme'' 20 ''companies''
     = Inr JNull
   \<and> fst (searchRecords test_client (\<lambda>i h r. mockResponse JNull) spec_policy ''acme'' [''companies''] None)
     = Inr []"
proof -
  have o: "search_request_outcome test_client (\<lambda>h r. mockResponse JNull) spec_policy ''acme'' 20 ''companies''
     = Inr JNull"
    by (simp add: search_request_outcome_def requestWithRetry_ok read_mockResponse)
  then have "type_results test_client (\<lambda>h r. mockResponse JNull) spec_policy ''acme'' 20 ''companies'' = []"
    by (rule type_results_null) simp
  with o show ?thesis
    by (simp add: searchRecords_concat search_limit_def)
qed

subsection \<open>C4 and C7: batches\<close>

lemma fst_bulk_item:
  "fst (bulk_item c fetch P operation endpoint item) = Inr (item_result c fetch P operation endpoint item)"
  by (cases "bulk_try c fetch P operation endpoint item")
     (auto simp: bulk_item_def item_result_def split: sum.splits)

lemma map_upt_shift: "map f [i..<i + m] = map (\<lambda>j. f (i + j)) [0..<m]"
  by (induction m) simp_all

lemma upt_batch:
  assumes "i < n"
  shows "map f [i..<n] = map (\<lambda>j. f (i + j)) [0..<min concurrencyLimit (n - i)] @ map f [i + concurrencyLimit..<n]"
proof -
  let ?m = "min concurrencyLimit (n - i)"
  have "[i..<n] = [i..<i + ?m] @ [i + ?m..<n]"
    using assms by (metis le_add1 le_add_diff_inverse less_imp_le_nat min.cobounded2 nat_add_left_cancel_le upt_add_eq_append)
  moreover have "[i + ?m..<n] = [i + concurrencyLimit..<n]"
    by (cases "concurrencyLimit \<le> n - i") (auto simp: min_def)
  moreover have "map f [i..<i + ?m] = map (\<lambda>j. f (i + j)) [0..<?m]"
    by (rule map_upt_shift)
  ultimately show ?thesis by (metis map_append)
qed

lemma bulk_loop_results:
  "bulk_loop c fetches P operation endpoint items i results traces
     = (Inr (results @ map (\<lambda>j. item_result c (fetches j) P operation endpoint (items ! j))
                          [i..<length items]),
        traces @ map (\<lambda>j. snd (bulk_item c (fetches j) P operation endpoint (items ! j)))
                   [i..<length items])"
proof (induction "length items - i" arbitrary: i results traces rule: less_induct)
  case less
  show ?case
  proof (cases "i < length items")
    case False
    then show ?thesis by (simp add: bulk_loop.simps [of _ _ _ _ _ _ i])
  next
    case True
    let ?batch = "take concurrencyLimit (drop i items)"
    let ?m = "min concurrencyLimit (length items - i)"
    let ?promises = "map (\<lambda>j. bulk_item c (fetches (i + j)) P operation endpoint (?batch ! j)) [0..<length ?batch]"
    have len: "length ?batch = ?m" by simp
    have pr: "?promises = map (\<lambda>j. bulk_item c (fetches (i + j)) P operation endpoint (items ! (i + j))) [0..<?m]"
      unfolding len by (rule map_cong) auto
    have fsts: "map fst ?promises
        = map Inr (map (\<lambda>j. item_result c (fetches (i + j)) P operation endpoint (items ! (i + j))) [0..<?m])"
      unfolding pr by (simp add: fst_bulk_item)
    have step: "bulk_loop c fetches P operation endpoint items i results traces
        = bulk_loop c fetches P operation endpoint items (i + concurrencyLimit)
            (results @ map (\<lambda>j. item_result c (fetches (i + j)) P operation endpoint (items ! (i + j))) [0..<?m])
            (traces @ map snd ?promises)"
      using True
      by (subst bulk_loop.simps) (simp only: Let_def fsts Promise_all_Inr if_True sum.case)
    have dec: "length items - (i + concurrencyLimit) < length items - i"
      using True by (simp add: concurrencyLimit_def)
    have snds: "map snd ?promises
        = map (\<lambda>j. snd (bulk_item c (fetches (i + j)) P operation endpoint (items ! (i + j)))) [0..<?m]"
      unfolding pr by simp
    show ?thesis
      unfolding step less.hyps [OF dec] snds
      by (simp add: upt_batch [OF True, where f = "\<lambda>j. item_result c (fetches j) P operation endpoint (items ! j)"]
            upt_batch [OF True, where f = "\<lambda>j. snd (bulk_item c (fetches j) P operation endpoint (items ! j))"])
  qed
qed



lemma loop_events:
  "\<exists>es. snd (requestWithRetry_loop c fetch P config method endpoint body qs a lastError tr) = tr @ es
     \<and> (\<forall>ev \<in> set es. (\<exists>d. ev = Sleep d) \<or> ev = Fetch (build_request c method endpoint body qs))
     \<and> (attempt_le a (maxRetries config) \<longrightarrow> es \<noteq> [] \<and> hd es = Fetch (build_request c method endpoint body qs))"
proof (induction "attempts_bound (maxRetries config) - a" arbitrary: a lastError tr)
  case 0
  then have "\<not> attempt_le a (maxRetries config)" using attempt_le_bound [of a "maxRetries config"] by auto
  then show ?case by (simp add: loop_exit)
next
  case (Suc n)
  show ?case
  proof (cases "attempt_le a (maxRetries config)")
    case False
    then show ?thesis by (simp add: loop_exit)
  next
    case le: True
  let ?req = "build_request c method endpoint body qs"
  show ?thesis
  proof (cases "read_response (fetch (fetched tr) ?req)")
    case (Inr v)
    with le show ?thesis by (simp add: loop_unfold Let_def)
  next
    case (Inl err)
    show ?thesis
    proof (cases "isRetryableError P err \<and> attempt_lt a (maxRetries config)")
      case False
      with Inl le show ?thesis by (auto simp: loop_unfold Let_def)
    next
      case True
      let ?tr2 = "(tr @ [Fetch ?req]) @ [Sleep (retry_delay P config err a (length (tr @ [Fetch ?req])))]"
      have step: "requestWithRetry_loop c fetch P config method endpoint body qs a lastError tr
          = requestWithRetry_loop c fetch P config method endpoint body qs (Suc a) (Some err) ?tr2"
        using True Inl le by (simp add: loop_unfold Let_def)
      have "n = attempts_bound (maxRetries config) - Suc a" using Suc.hyps(2) by simp
      from Suc.hyps(1) [OF this, of "Some err" ?tr2]
      obtain es where es: "snd (requestWithRetry_loop c fetch P config method endpoint body qs (Suc a) (Some err) ?tr2)
            = ?tr2 @ es"
          "\<forall>ev \<in> set es. (\<exists>d. ev = Sleep d) \<or> ev = Fetch ?req"
        by blast
      let ?es = "Fetch ?req # Sleep (retry_delay P config err a (length (tr @ [Fetch ?req]))) # es"
      have "snd (requestWithRetry_loop c fetch P config method endpoint body qs a lastError tr) = tr @ ?es"
        unfolding step es(1) by simp
      moreover have "\<forall>ev \<in> set ?es. (\<exists>d. ev = Sleep d) \<or> ev = Fetch ?req" using es(2) by simp
      moreover have "?es \<noteq> [] \<and> hd ?es = Fetch ?req" by simp
      ultimately show ?thesis by blast
    qed
  qed
  qed
qed

lemma requestWithRetry_events:
  "snd (requestWithRetry c fetch P method endpoint body qs no_override []) \<noteq> []
   \<and> hd (snd (requestWithRetry c fetch P method endpoint body qs no_override []))
       = Fetch (build_request c method endpoint body qs)
   \<and> (\<forall>ev \<in> set (snd (requestWithRetry c fetch P method endpoint body qs no_override [])).
        (\<exists>d. ev = Sleep d) \<or> ev = Fetch (build_request c method endpoint body qs))"
  using loop_events [where config = "merge_config (DEFAULT_RETRY_CONFIG P) no_override" and a = 0
                       and lastError = None and tr = "[]"]
  by (auto simp: requestWithRetry_def maxRetries_default)

lemma snd_bulk_item:
  "snd (bulk_item c fetch P operation endpoint item) = snd (bulk_try c fetch P operation endpoint item)"
  by (cases "bulk_try c fetch P operation endpoint item") (auto simp: bulk_item_def split: sum.splits)

lemma toUpperCase_PUT: "toUpperCase ''PUT'' = ''PUT''"
  by (simp add: toUpperCase_def upper_char_def)

lemma update_request:
  "build_request c ''PUT'' (endpoint @ ''/'' @ js_String (obj_get item ''id''))
       (Some (obj_delete ''id'' item)) None
   = \<lparr>req_url = baseUrl c @ endpoint @ ''/'' @ js_String (obj_get item ''id''),
      req_method = ''PUT'',
      req_headers = [(''Authorization'', ''Bearer '' @ apiKey c), (''Content-Type'', ''application/json'')],
      req_body = (if filter (\<lambda>kv. fst kv \<noteq> ''id'') item = [] then None
                  else JSON_stringify (JObj (filter (\<lambda>kv. fst kv \<noteq> ''id'') item)))\<rparr>"
  by (simp add: build_request_def request_url_def query_suffix_def request_params_def
        params_toString_def request_body_def toUpperCase_PUT obj_delete_def)

text \<open>
  C7 (amended). In a batch update, the requests for record \<open>i\<close> (there is at least one, and
  retries repeat it) are PUT requests to the endpoint followed by a slash and the record's
  identifier. Their body is the JSON text of the record's fields other than \<^verbatim>\<open>id\<close>, in
  their order and with their values, when there is such a field; when \<^verbatim>\<open>id\<close> is the only
  field no body is sent.
\<close>

theorem bulk_update_request:
  assumes "i < length items"
  shows "snd (bulkOperation c fetches P Update resource items) ! i \<noteq> []
     \<and> hd (snd (bulkOperation c fetches P Update resource items) ! i)
         = Fetch \<lparr>req_url = baseUrl c @ getResourceEndpoint resource @ ''/''
                              @ js_String (obj_get (items ! i) ''id''),
                   req_method = ''PUT'',
                   req_headers = [(''Authorization'', ''Bearer '' @ apiKey c),
                                  (''Content-Type'', ''application/json'')],
                   req_body = (if filter (\<lambda>kv. fst kv \<noteq> ''id'') (items ! i) = [] then None
                               else JSON_stringify (JObj (filter (\<lambda>kv. fst kv \<noteq> ''id'') (items ! i))))\<rparr>
     \<and> (\<forall>ev \<in> set (snd (bulkOperation c fetches P Update resource items) ! i).
          (\<exists>d. ev = Sleep d)
          \<or> ev = Fetch \<lparr>req_url = baseUrl c @ getResourceEndpoint resource @ ''/''
                              @ js_String (obj_get (items ! i) ''id''),
                   req_method = ''PUT'',
                   req_headers = [(''Authorization'', ''Bearer '' @ apiKey c),
                                  (''Content-Type'', ''application/json'')],
                   req_body = (if filter (\<lambda>kv. fst kv \<noteq> ''id'') (items ! i) = [] then None
                               else JSON_stringify (JObj (filter (\<lambda>kv. fst kv \<noteq> ''id'') (items ! i))))\<rparr>)"
proof -
  let ?ep = "getResourceEndpoint resource"
  have "snd (bulkOperation c fetches P Update resource items) ! i
      = snd (bulk_try c (fetches i) P Update ?ep (items ! i))"
    using assms by (simp add: bulkOperation_def bulk_loop_results snd_bulk_item)
  also have "\<dots> = snd (requestWithRetry c (fetches i) P ''PUT''
                       (?ep @ ''/'' @ js_String (obj_get (items ! i) ''id''))
                       (Some (obj_delete ''id'' (items ! i))) None no_override [])"
    by (simp add: bulk_try_def Let_def)
  finally have eq: "snd (bulkOperation c fetches P Update resource items) ! i
      = snd (requestWithRetry c (fetches i) P ''PUT''
                       (?ep @ ''/'' @ js_String (obj_get (items ! i) ''id''))
                       (Some (obj_delete ''id'' (items ! i))) None no_override [])" .
  note ev = requestWithRetry_events [of c "fetches i" P "''PUT''"
            "?ep @ ''/'' @ js_String (obj_get (items ! i) ''id'')"
            "Some (obj_delete ''id'' (items ! i))" None, unfolded update_request]
  show ?thesis unfolding eq by (rule ev)
qed


text \<open>C7 on the record of the test suite: the name goes into the body, the id into the path.\<close>

theorem bulk_update_request_witness:
  \<open>hd (snd (bulkOperation test_client (\<lambda>i h r. mockResponse (JObj [(''data'', JObj [(''id'', JStr ''123'')])]))
            spec_policy Update ''company'' [[(''id'', JStr ''123''), (''name'', JStr ''Updated Acme'')]]) ! 0)
   = Fetch \<lparr>req_url = ''https://crm.example.com/rest/companies/123'', req_method = ''PUT'',
             req_headers = [(''Authorization'', ''Bearer test-key''), (''Content-Type'', ''application/json'')],
             req_body = Some ''{"name":"Updated Acme"}''\<rparr>\<close>
  using bulk_update_request [of 0 "[[(''id'', JStr ''123''), (''name'', JStr ''Updated Acme'')]]" test_client
              "\<lambda>i h r. mockResponse (JObj [(''data'', JObj [(''id'', JStr ''123'')])])" spec_policy "''company''"]
  by (simp add: test_client_def constructor_def strip_trailing_slash_def getResourceEndpoint_def
        obj_get_def JSON_quote_def json_escape_def)

text \<open>
  C7, as stated, fails on a record whose only field is the identifier: the record without
  the identifier is the empty object, and the request goes out without a body.
\<close>

theorem bulk_update_without_fields_sends_no_body:
  "snd (bulkOperation test_client (\<lambda>i h r. mockResponse (JObj [(''data'', JObj [(''id'', JStr ''123'')])]))
          spec_policy Update ''company'' [[(''id'', JStr ''123'')]])
   = [[Fetch \<lparr>req_url = ''https://crm.example.com/rest/companies/123'', req_method = ''PUT'',
              req_headers = [(''Authorization'', ''Bearer test-key''), (''Content-Type'', ''application/json'')],
              req_body = None\<rparr>]]"
  by (simp add: bulkOperation_def bulk_loop_results snd_bulk_item bulk_try_def Let_def
        requestWithRetry_ok read_mockResponse build_request_def request_url_def query_suffix_def
        request_params_def params_toString_def request_body_def obj_delete_def
        test_client_def constructor_def strip_trailing_slash_def getResourceEndpoint_def obj_get_def)

lemma s400: "string_of_nat 400 = ''400''" by code_simp



subsection \<open>C6: lookup by field\<close>

lemma stringify_filter:
  "JSON_stringify_value (JObj [(fieldName, JObj [(''eq'', JStr fieldValue)])])
     = JStr (filter_text fieldName fieldValue)"
  by (simp add: filter_text_def JSON_stringify_value_def)

lemma primary_try_eq:
  "primary_try c fetch P (getResourceEndpoint resource) fieldName fieldValue tr =
     (case primary_request c fetch P resource fieldName fieldValue tr of
        (Inl err, tr') \<Rightarrow> (Inl err, tr')
      | (Inr resp, tr') \<Rightarrow>
          (case unwrap_data resp of
             Inl x \<Rightarrow> (Inl x, tr')
           | Inr data \<Rightarrow> (case data of JArr (x # xs) \<Rightarrow> (Inr x, tr') | _ \<Rightarrow> (Inr JNull, tr'))))"
  unfolding primary_try_def primary_request_def stringify_filter by simp

lemma fallback_try_eq:
  "fallback_try c fetch P toLowerCase (getResourceEndpoint resource) fieldName fieldValue tr =
     (case fallback_request c fetch P resource fieldValue tr of
        (Inl err, tr') \<Rightarrow> (Inl err, tr')
      | (Inr resp, tr') \<Rightarrow>
          (case unwrap_data resp of
             Inl x \<Rightarrow> (Inl x, tr')
           | Inr data \<Rightarrow>
               (case data of
                  JArr xs \<Rightarrow>
                    (case find_match toLowerCase fieldName fieldValue xs of
                       Inl x \<Rightarrow> (Inl x, tr')
                     | Inr match \<Rightarrow> (Inr (js_or match JNull), tr'))
                | _ \<Rightarrow> (Inr JNull, tr'))))"
  unfolding fallback_try_def fallback_request_def by simp

lemma find_never_raises:
  "\<exists>r. fst (findRecordByField c fetch P toLowerCase resource fieldName fieldValue tr) = Inr r"
  by (simp add: findRecordByField_def Let_def split: prod.splits sum.splits)

lemma find_primary:
  assumes "fst (primary_request c fetch P resource fieldName fieldValue tr) = Inr resp"
    and "unwrap_data resp = Inr data"
  shows "findRecordByField c fetch P toLowerCase resource fieldName fieldValue tr
     = (Inr (case data of JArr (x # xs) \<Rightarrow> x | _ \<Rightarrow> JNull),
        snd (primary_request c fetch P resource fieldName fieldValue tr))"
  using assms
  by (cases "primary_request c fetch P resource fieldName fieldValue tr")
     (auto simp: findRecordByField_def Let_def primary_try_eq split: jsval.splits list.splits)

lemma find_fallback:
  assumes "(\<exists>err. fst (primary_request c fetch P resource fieldName fieldValue tr) = Inl err)
           \<or> (\<exists>resp x. fst (primary_request c fetch P resource fieldName fieldValue tr) = Inr resp
                  \<and> unwrap_data resp = Inl x)"
  shows "findRecordByField c fetch P toLowerCase resource fieldName fieldValue tr
     = (case fallback_try c fetch P toLowerCase (getResourceEndpoint resource) fieldName fieldValue
               (snd (primary_request c fetch P resource fieldName fieldValue tr)) of
          (Inr r, tr') \<Rightarrow> (Inr r, tr')
        | (Inl err, tr') \<Rightarrow> (Inr JNull, tr'))"
  using assms
  by (cases "primary_request c fetch P resource fieldName fieldValue tr")
     (auto simp: findRecordByField_def Let_def primary_try_eq)

lemma snd_fallback_try:
  "snd (fallback_try c fetch P toLowerCase (getResourceEndpoint resource) fieldName fieldValue tr)
     = snd (fallback_request c fetch P resource fieldValue tr)"
  by (cases "fallback_request c fetch P resource fieldValue tr")
     (auto simp: fallback_try_eq split: sum.splits jsval.splits)

text \<open>
  The scan of the rows: it goes on over the rows that are neither \<^verbatim>\<open>null\<close> nor a match, and
  the first other row decides it.
\<close>

lemma field_matches_row:
  "row \<noteq> JNull \<Longrightarrow> row \<noteq> JUndefined \<Longrightarrow>
   field_matches toLowerCase fieldName fieldValue row
     = Inr (case get_prop row fieldName of
              Inr (JStr s) \<Rightarrow> toLowerCase s = toLowerCase fieldValue
            | Inr v \<Rightarrow> js_String v = fieldValue
            | Inl x \<Rightarrow> False)"
  by (cases row) (auto simp: field_matches_def split: jsval.splits)

lemma field_matches_null:
  "row = JNull \<or> row = JUndefined \<Longrightarrow> \<exists>x. field_matches toLowerCase fieldName fieldValue row = Inl x"
  by (auto simp: field_matches_def)

lemma find_match_scan:
  "find_match toLowerCase fieldName fieldValue xs
     = (case find (\<lambda>row. row = JNull \<or> row = JUndefined
                        \<or> (case get_prop row fieldName of
                              Inr (JStr s) \<Rightarrow> toLowerCase s = toLowerCase fieldValue
                            | Inr v \<Rightarrow> js_String v = fieldValue
                            | Inl x \<Rightarrow> False)) xs of
          None \<Rightarrow> Inr JUndefined
        | Some row \<Rightarrow> if row = JNull \<or> row = JUndefined then Inl (TypeError_thrown row fieldName)
                      else Inr row)"
proof (induction xs)
  case Nil
  then show ?case by simp
next
  case (Cons row xs)
  show ?case
  proof (cases "row = JNull \<or> row = JUndefined")
    case True
    then show ?thesis by (auto simp: field_matches_def)
  next
    case False
    then have fm: "field_matches toLowerCase fieldName fieldValue row
       = Inr (case get_prop row fieldName of
              Inr (JStr s) \<Rightarrow> toLowerCase s = toLowerCase fieldValue
            | Inr v \<Rightarrow> js_String v = fieldValue
            | Inl x \<Rightarrow> False)"
      by (intro field_matches_row) auto
    show ?thesis
    proof (cases "case get_prop row fieldName of
              Inr (JStr s) \<Rightarrow> toLowerCase s = toLowerCase fieldValue
            | Inr v \<Rightarrow> js_String v = fieldValue
            | Inl x \<Rightarrow> False")
      case True
      with False fm show ?thesis by simp
    next
      case nm: False
      with False fm Cons.IH show ?thesis by simp
    qed
  qed
qed

lemma unwrap_data_Inl: "(\<exists>x. unwrap_data resp = Inl x) = (resp = JNull \<or> resp = JUndefined)"
  by (cases resp) (auto simp: unwrap_data_def)

lemma s10: "string_of_int 10 = ''10''" by code_simp

lemma fallback_params:
  "request_params (Some [(''search'', JStr fieldValue), (''limit'', JNum 10)])
     = (if fieldValue = [] then [] else [(''search'', fieldValue)]) @ [(''limit'', ''10'')]"
  by (simp add: request_params_def transmittable_def s10)

text \<open>
  C6 (amended). \<^verbatim>\<open>findRecordByField\<close> never raises. When the filter request succeeds with
  a response other than \<^verbatim>\<open>null\<close>, the result is the first row of its data array, or none,
  and no further request is made. The fallback search is made exactly in the other cases:
  when the filter request raises, or when its response is \<^verbatim>\<open>null\<close>, so that reading its
  \<^verbatim>\<open>data\<close> throws. The search request carries \<open>limit = 10\<close>. The result is none when the
  search raises and when its response is \<^verbatim>\<open>null\<close> or holds no array. Otherwise the rows of
  the array are scanned in order up to the first row that is \<^verbatim>\<open>null\<close> or matches: the
  result is that row when it matches, and none when it is \<^verbatim>\<open>null\<close> or when there is no
  such row. A row matches when its field is a string whose lower-cased form is the lower-cased
  target, or another value whose string coercion is the target. This holds whatever function
  the platform's \<^verbatim>\<open>toLowerCase\<close> is.
\<close>

theorem findRecordByField_paths:
  "(\<exists>r. fst (findRecordByField c fetch P toLowerCase resource fieldName fieldValue tr) = Inr r)
   \<and> (\<forall>resp data.
         fst (primary_request c fetch P resource fieldName fieldValue tr) = Inr resp
         \<and> unwrap_data resp = Inr data
         \<longrightarrow> findRecordByField c fetch P toLowerCase resource fieldName fieldValue tr
               = (Inr (case data of JArr (x # xs) \<Rightarrow> x | _ \<Rightarrow> JNull),
                  snd (primary_request c fetch P resource fieldName fieldValue tr)))
   \<and> ((\<exists>err. fst (primary_request c fetch P resource fieldName fieldValue tr) = Inl err)
        \<or> fst (primary_request c fetch P resource fieldName fieldValue tr) = Inr JNull
        \<or> fst (primary_request c fetch P resource fieldName fieldValue tr) = Inr JUndefined
       \<longrightarrow>
         snd (findRecordByField c fetch P toLowerCase resource fieldName fieldValue tr)
           = snd (fallback_request c fetch P resource fieldValue
                    (snd (primary_request c fetch P resource fieldName fieldValue tr)))
       \<and> (\<forall>err. fst (fallback_request c fetch P resource fieldValue
                       (snd (primary_request c fetch P resource fieldName fieldValue tr))) = Inl err
             \<longrightarrow> fst (findRecordByField c fetch P toLowerCase resource fieldName fieldValue tr) = Inr JNull)
       \<and> (\<forall>resp x. fst (fallback_request c fetch P resource fieldValue
                       (snd (primary_request c fetch P resource fieldName fieldValue tr))) = Inr resp
                  \<and> unwrap_data resp = Inl x
             \<longrightarrow> fst (findRecordByField c fetch P toLowerCase resource fieldName fieldValue tr) = Inr JNull)
       \<and> (\<forall>resp data. fst (fallback_request c fetch P resource fieldValue
                       (snd (primary_request c fetch P resource fieldName fieldValue tr))) = Inr resp
                  \<and> unwrap_data resp = Inr data \<and> \<not> isArray data
             \<longrightarrow> fst (findRecordByField c fetch P toLowerCase resource fieldName fieldValue tr) = Inr JNull)
       \<and> (\<forall>resp xs. fst (fallback_request c fetch P resource fieldValue
                       (snd (primary_request c fetch P resource fieldName fieldValue tr))) = Inr resp
                  \<and> unwrap_data resp = Inr (JArr xs)
             \<longrightarrow> fst (findRecordByField c fetch P toLowerCase resource fieldName fieldValue tr)
                   = Inr (case find (\<lambda>row. row = JNull \<or> row = JUndefined
                                        \<or> (case get_prop row fieldName of
                                              Inr (JStr s) \<Rightarrow> toLowerCase s = toLowerCase fieldValue
                                            | Inr v \<Rightarrow> js_String v = fieldValue
                                            | Inl x \<Rightarrow> False)) xs of
                            Some row \<Rightarrow> js_or row JNull
                          | None \<Rightarrow> JNull)))
   \<and> request_params (Some [(''search'', JStr fieldValue), (''limit'', JNum 10)])
       = (if fieldValue = [] then [] else [(''search'', fieldValue)]) @ [(''limit'', ''10'')]"
proof -
  let ?R1 = "primary_request c fetch P resource fieldName fieldValue tr"
  let ?R2 = "fallback_request c fetch P resource fieldValue (snd ?R1)"
  let ?F = "findRecordByField c fetch P toLowerCase resource fieldName fieldValue tr"
  let ?stop = "\<lambda>row. row = JNull \<or> row = JUndefined
                    \<or> (case get_prop row fieldName of
                          Inr (JStr s) \<Rightarrow> toLowerCase s = toLowerCase fieldValue
                        | Inr v \<Rightarrow> js_String v = fieldValue
                        | Inl x \<Rightarrow> False)"
  have a: "\<exists>r. fst ?F = Inr r" by (rule find_never_raises)
  have b: "\<forall>resp data. fst ?R1 = Inr resp \<and> unwrap_data resp = Inr data
         \<longrightarrow> ?F = (Inr (case data of JArr (x # xs) \<Rightarrow> x | _ \<Rightarrow> JNull), snd ?R1)"
    by (intro allI impI, elim conjE) (rule find_primary)
  have c: "snd ?F = snd ?R2
       \<and> (\<forall>err. fst ?R2 = Inl err \<longrightarrow> fst ?F = Inr JNull)
       \<and> (\<forall>resp x. fst ?R2 = Inr resp \<and> unwrap_data resp = Inl x \<longrightarrow> fst ?F = Inr JNull)
       \<and> (\<forall>resp data. fst ?R2 = Inr resp \<and> unwrap_data resp = Inr data \<and> \<not> isArray data
             \<longrightarrow> fst ?F = Inr JNull)
       \<and> (\<forall>resp xs. fst ?R2 = Inr resp \<and> unwrap_data resp = Inr (JArr xs)
             \<longrightarrow> fst ?F = Inr (case find ?stop xs of
                            Some row \<Rightarrow> js_or row JNull
                          | None \<Rightarrow> JNull))"
    if h: "(\<exists>err. fst ?R1 = Inl err) \<or> fst ?R1 = Inr JNull \<or> fst ?R1 = Inr JUndefined"
  proof -
    from h have "(\<exists>err. fst ?R1 = Inl err) \<or> (\<exists>resp x. fst ?R1 = Inr resp \<and> unwrap_data resp = Inl x)"
      using unwrap_data_Inl by blast
    note F = find_fallback [OF this, of toLowerCase]
    obtain r2 tr2 where R2: "?R2 = (r2, tr2)" by (cases ?R2)
    have c1: "snd ?F = snd ?R2"
    proof -
      obtain r t where ft: "fallback_try c fetch P toLowerCase (getResourceEndpoint resource) fieldName fieldValue (snd ?R1)
                             = (r, t)"
        by (cases "fallback_try c fetch P toLowerCase (getResourceEndpoint resource) fieldName fieldValue (snd ?R1)")
      with snd_fallback_try [of c fetch P toLowerCase resource fieldName fieldValue "snd ?R1"]
      have "t = snd ?R2" by simp
      with ft show ?thesis unfolding F by (cases r) simp_all
    qed
    have c2: "\<forall>err. fst ?R2 = Inl err \<longrightarrow> fst ?F = Inr JNull"
      unfolding F fallback_try_eq using R2 by simp
    have c3: "\<forall>resp x. fst ?R2 = Inr resp \<and> unwrap_data resp = Inl x \<longrightarrow> fst ?F = Inr JNull"
      unfolding F fallback_try_eq using R2 by simp
    have c4: "\<forall>resp data. fst ?R2 = Inr resp \<and> unwrap_data resp = Inr data \<and> \<not> isArray data
             \<longrightarrow> fst ?F = Inr JNull"
      unfolding F fallback_try_eq using R2 by (auto simp: isArray_def split: jsval.splits)
    have c5: "\<forall>resp xs. fst ?R2 = Inr resp \<and> unwrap_data resp = Inr (JArr xs)
             \<longrightarrow> fst ?F = Inr (case find ?stop xs of
                            Some row \<Rightarrow> js_or row JNull
                          | None \<Rightarrow> JNull)"
    proof (intro allI impI, elim conjE)
      fix resp xs
      assume r: "fst ?R2 = Inr resp" and u: "unwrap_data resp = Inr (JArr xs)"
      note fm = find_match_scan [of toLowerCase fieldName fieldValue xs]
      show "fst ?F = Inr (case find ?stop xs of Some row \<Rightarrow> js_or row JNull | None \<Rightarrow> JNull)"
      proof (cases "find ?stop xs")
        case None
        with fm have "find_match toLowerCase fieldName fieldValue xs = Inr JUndefined" by simp
        with None show ?thesis
          unfolding F fallback_try_eq using r u R2 by (simp add: js_or_def)
      next
        case (Some row)
        show ?thesis
        proof (cases "row = JNull \<or> row = JUndefined")
          case True
          with Some fm have "find_match toLowerCase fieldName fieldValue xs = Inl (TypeError_thrown row fieldName)"
            by simp
          with Some True show ?thesis
            unfolding F fallback_try_eq using r u R2 by (auto simp: js_or_def)
        next
          case False
          with Some fm have "find_match toLowerCase fieldName fieldValue xs = Inr row" by simp
          with Some show ?thesis
            unfolding F fallback_try_eq using r u R2 by simp
        qed
      qed
    qed
    show ?thesis by (intro conjI) (rule c1 c2 c3 c4 c5)+
  qed
  note f = fallback_params [of fieldValue]
  show ?thesis
    apply (intro conjI)
    subgoal by (rule a)
    subgoal by (rule b)
    subgoal by (rule impI) (rule c)
    subgoal by (rule f)
    done
qed


lemma lookup_request_1:
  "build_request test_client ''GET'' (getResourceEndpoint ''company'') None
     (Some [(''filter'', JStr (filter_text ''name'' ''acme'')), (''limit'', JNum 1)])
   = \<lparr>req_url = ''https://crm.example.com/rest/companies?filter=%7B%22name%22%3A%7B%22eq%22%3A%22acme%22%7D%7D&limit=1'',
      req_method = ''GET'',
      req_headers = [(''Authorization'', ''Bearer test-key''), (''Content-Type'', ''application/json'')],
      req_body = None\<rparr>"
  by code_simp

lemma lookup_request_2:
  "build_request test_client ''GET'' (getResourceEndpoint ''company'') None
     (Some [(''search'', JStr ''acme''), (''limit'', JNum 10)])
   = \<lparr>req_url = ''https://crm.example.com/rest/companies?search=acme&limit=10'',
      req_method = ''GET'',
      req_headers = [(''Authorization'', ''Bearer test-key''), (''Content-Type'', ''application/json'')],
      req_body = None\<rparr>"
  by code_simp

lemma lookup_request_3:
  "build_request test_client ''GET'' (getResourceEndpoint ''company'') None
     (Some [(''filter'', JStr (filter_text ''name'' (CHR 0xE4 # ''cme''))), (''limit'', JNum 1)])
   = \<lparr>req_url = ''https://crm.example.com/rest/companies?filter=%7B%22name%22%3A%7B%22eq%22%3A%22%C3%A4cme%22%7D%7D&limit=1'',
      req_method = ''GET'',
      req_headers = [(''Authorization'', ''Bearer test-key''), (''Content-Type'', ''application/json'')],
      req_body = None\<rparr>"
  by code_simp

lemma lookup_request_4:
  "build_request test_client ''GET'' (getResourceEndpoint ''company'') None
     (Some [(''search'', JStr (CHR 0xE4 # ''cme'')), (''limit'', JNum 10)])
   = \<lparr>req_url = ''https://crm.example.com/rest/companies?search=%C3%A4cme&limit=10'',
      req_method = ''GET'',
      req_headers = [(''Authorization'', ''Bearer test-key''), (''Content-Type'', ''application/json'')],
      req_body = None\<rparr>"
  by code_simp

lemma not_retryable_filter:
  "\<not> isRetryableError spec_policy
       (ErrorObj \<lparr>message = ''Twenty CRM API error (400): Filter not supported'',
                  statusCode = Some 400, response = Some (400, []), code = None\<rparr>)"
  by (simp add: spec_policy_def spec_isRetryableError_def retryable_statuses_def retryable_codes_def transient_message_def)

lemma acme_matches:
  "field_matches latin1_toLowerCase ''name'' ''acme'' (JObj [(''id'', JStr ''123''), (''name'', JStr ''Acme'')]) = Inr True"
  by code_simp

lemma scan_rows:
  "find (\<lambda>row. row = JNull \<or> row = JUndefined
               \<or> (case get_prop row ''name'' of
                     Inr (JStr s) \<Rightarrow> latin1_toLowerCase s = latin1_toLowerCase (CHR 0xE4 # ''cme'')
                   | Inr v \<Rightarrow> js_String v = CHR 0xE4 # ''cme''
                   | Inl x \<Rightarrow> False))
     [JObj [(''id'', JStr ''7''), (''name'', JStr ''Acme Ltd'')],
      JObj [(''id'', JStr ''123''), (''name'', JStr (CHR 0xC4 # ''CME''))],
      JNull]
   = Some (JObj [(''id'', JStr ''123''), (''name'', JStr (CHR 0xC4 # ''CME''))])"
  by code_simp

text \<open>
  C6 where the server rejects the filter with status 400 and the search returns three rows:
  one that does not match, one whose name differs from the target in case only (in the case
  of a letter outside ASCII, too), and \<^verbatim>\<open>null\<close>. Two requests are made, and the result is
  the second row.
\<close>

theorem findRecordByField_paths_witness:
  "fst (primary_request test_client
          (\<lambda>h r. if h = [] then mockErrorResponse 400 ''Filter not supported''
                  else mockResponse (JObj [(''data'',
                         JArr [JObj [(''id'', JStr ''7''), (''name'', JStr ''Acme Ltd'')],
                               JObj [(''id'', JStr ''123''), (''name'', JStr (CHR 0xC4 # ''CME''))],
                               JNull])]))
          spec_policy ''company'' ''name'' (CHR 0xE4 # ''cme'') [])
     = Inl (new_Error ''Twenty CRM API error: Twenty CRM API error (400): Filter not supported'')
   \<and> fst (findRecordByField test_client
          (\<lambda>h r. if h = [] then mockErrorResponse 400 ''Filter not supported''
                  else mockResponse (JObj [(''data'',
                         JArr [JObj [(''id'', JStr ''7''), (''name'', JStr ''Acme Ltd'')],
                               JObj [(''id'', JStr ''123''), (''name'', JStr (CHR 0xC4 # ''CME''))],
                               JNull])]))
          spec_policy latin1_toLowerCase ''company'' ''name'' (CHR 0xE4 # ''cme'') [])
     = Inr (JObj [(''id'', JStr ''123''), (''name'', JStr (CHR 0xC4 # ''CME''))])
   \<and> map req_url (fetched (snd (findRecordByField test_client
          (\<lambda>h r. if h = [] then mockErrorResponse 400 ''Filter not supported''
                  else mockResponse (JObj [(''data'',
                         JArr [JObj [(''id'', JStr ''7''), (''name'', JStr ''Acme Ltd'')],
                               JObj [(''id'', JStr ''123''), (''name'', JStr (CHR 0xC4 # ''CME''))],
                               JNull])]))
          spec_policy latin1_toLowerCase ''company'' ''name'' (CHR 0xE4 # ''cme'') [])))
     = [''https://crm.example.com/rest/companies?filter=%7B%22name%22%3A%7B%22eq%22%3A%22%C3%A4cme%22%7D%7D&limit=1'',
        ''https://crm.example.com/rest/companies?search=%C3%A4cme&limit=10'']"
proof -
  let ?row = "JObj [(''id'', JStr ''123''), (''name'', JStr (CHR 0xC4 # ''CME''))]"
  let ?rows = "[JObj [(''id'', JStr ''7''), (''name'', JStr ''Acme Ltd'')], ?row, JNull]"
  let ?page = "JObj [(''data'', JArr ?rows)]"
  let ?fetch = "\<lambda>(h :: http_request list) (r :: http_request).
                  if h = [] then mockErrorResponse 400 ''Filter not supported'' else mockResponse ?page"
  let ?R1 = "primary_request test_client ?fetch spec_policy ''company'' ''name'' (CHR 0xE4 # ''cme'') []"
  let ?R2 = "fallback_request test_client ?fetch spec_policy ''company'' (CHR 0xE4 # ''cme'') (snd ?R1)"
  let ?F = "findRecordByField test_client ?fetch spec_policy latin1_toLowerCase ''company'' ''name''
              (CHR 0xE4 # ''cme'') []"
  have R1: "?R1 = (Inl (new_Error ''Twenty CRM API error: Twenty CRM API error (400): Filter not supported''),
                   [Fetch (build_request test_client ''GET'' (getResourceEndpoint ''company'') None
                      (Some [(''filter'', JStr (filter_text ''name'' (CHR 0xE4 # ''cme''))), (''limit'', JNum 1)]))])"
    unfolding primary_request_def
    by (subst requestWithRetry_not_retryable [where err = "ErrorObj \<lparr>message = ''Twenty CRM API error (400): Filter not supported'',
                  statusCode = Some 400, response = Some (400, []), code = None\<rparr>"])
       (simp_all add: read_mockErrorResponse s400 not_retryable_filter error_message_def,
        simp add: spec_policy_def spec_getErrorContext_def thrown_status_def thrown_code_def)
  have R2: "?R2 = (Inr ?page,
                   [Fetch (build_request test_client ''GET'' (getResourceEndpoint ''company'') None
                      (Some [(''filter'', JStr (filter_text ''name'' (CHR 0xE4 # ''cme''))), (''limit'', JNum 1)])),
                    Fetch (build_request test_client ''GET'' (getResourceEndpoint ''company'') None
                      (Some [(''search'', JStr (CHR 0xE4 # ''cme'')), (''limit'', JNum 10)]))])"
    unfolding R1 snd_conv fallback_request_def
    by (subst requestWithRetry_ok [where v = ?page]) (simp_all add: read_mockResponse)
  have u: "unwrap_data ?page = Inr (JArr ?rows)" by (simp add: unwrap_data_def js_or_def)
  note T = findRecordByField_paths [of test_client ?fetch spec_policy latin1_toLowerCase "''company''" "''name''"
                "CHR 0xE4 # ''cme''" "[]",
                THEN conjunct2, THEN conjunct2, THEN conjunct1, rule_format]
  have h: "(\<exists>err. fst ?R1 = Inl err) \<or> fst ?R1 = Inr JNull \<or> fst ?R1 = Inr JUndefined"
    unfolding R1 by simp
  from T [OF h] have tr: "snd ?F = snd ?R2" by (rule conjunct1)
  from T [OF h] have "\<forall>resp xs. fst ?R2 = Inr resp \<and> unwrap_data resp = Inr (JArr xs)
             \<longrightarrow> fst ?F = Inr (case find (\<lambda>row. row = JNull \<or> row = JUndefined
                                        \<or> (case get_prop row ''name'' of
                                              Inr (JStr s) \<Rightarrow> latin1_toLowerCase s = latin1_toLowerCase (CHR 0xE4 # ''cme'')
                                            | Inr v \<Rightarrow> js_String v = CHR 0xE4 # ''cme''
                                            | Inl x \<Rightarrow> False)) xs of
                            Some row \<Rightarrow> js_or row JNull
                          | None \<Rightarrow> JNull)"
    by (elim conjE)
  from this [rule_format, of ?page ?rows] R2 u
  have res: "fst ?F = Inr ?row" unfolding scan_rows by (simp add: js_or_def)
  from tr have urls: "map req_url (fetched (snd ?F))
     = [''https://crm.example.com/rest/companies?filter=%7B%22name%22%3A%7B%22eq%22%3A%22%C3%A4cme%22%7D%7D&limit=1'',
        ''https://crm.example.com/rest/companies?search=%C3%A4cme&limit=10'']"
    unfolding R2 by (simp add: lookup_request_3 lookup_request_4)
  from R1 res urls show ?thesis by simp
qed

text \<open>
  C6, as stated, fails when the filter request succeeds with the response \<^verbatim>\<open>null\<close>: the
  request did not error, yet the fallback search is made and its row is returned.
\<close>

theorem findRecordByField_falls_back_on_null_response:
  "fst (primary_request test_client
          (\<lambda>h r. if h = [] then mockResponse JNull
                  else mockResponse (JObj [(''data'', JArr [JObj [(''id'', JStr ''123''), (''name'', JStr ''Acme'')]])]))
          spec_policy ''company'' ''name'' ''acme'' [])
     = Inr JNull
   \<and> fst (findRecordByField test_client
          (\<lambda>h r. if h = [] then mockResponse JNull
                  else mockResponse (JObj [(''data'', JArr [JObj [(''id'', JStr ''123''), (''name'', JStr ''Acme'')]])]))
          spec_policy latin1_toLowerCase ''company'' ''name'' ''acme'' [])
     = Inr (JObj [(''id'', JStr ''123''), (''name'', JStr ''Acme'')])
   \<and> map req_url (fetched (snd (findRecordByField test_client
          (\<lambda>h r. if h = [] then mockResponse JNull
                  else mockResponse (JObj [(''data'', JArr [JObj [(''id'', JStr ''123''), (''name'', JStr ''Acme'')]])]))
          spec_policy latin1_toLowerCase ''company'' ''name'' ''acme'' [])))
     = [''https://crm.example.com/rest/companies?filter=%7B%22name%22%3A%7B%22eq%22%3A%22acme%22%7D%7D&limit=1'',
        ''https://crm.example.com/rest/companies?search=acme&limit=10'']"
proof -
  let ?row = "JObj [(''id'', JStr ''123''), (''name'', JStr ''Acme'')]"
  let ?page = "JObj [(''data'', JArr [?row])]"
  let ?fetch = "\<lambda>(h :: http_request list) (r :: http_request).
                  if h = [] then mockResponse JNull else mockResponse ?page"
  let ?R1 = "primary_request test_client ?fetch spec_policy ''company'' ''name'' ''acme'' []"
  let ?R2 = "fallback_request test_client ?fetch spec_policy ''company'' ''acme'' (snd ?R1)"
  let ?F = "findRecordByField test_client ?fetch spec_policy latin1_toLowerCase ''company'' ''name'' ''acme'' []"
  have R1: "?R1 = (Inr JNull,
                   [Fetch (build_request test_client ''GET'' (getResourceEndpoint ''company'') None
                      (Some [(''filter'', JStr (filter_text ''name'' ''acme'')), (''limit'', JNum 1)]))])"
    unfolding primary_request_def
    by (subst requestWithRetry_ok [where v = JNull]) (simp_all add: read_mockResponse)
  have R2: "?R2 = (Inr ?page,
                   [Fetch (build_request test_client ''GET'' (getResourceEndpoint ''company'') None
                      (Some [(''filter'', JStr (filter_text ''name'' ''acme'')), (''limit'', JNum 1)])),
                    Fetch (build_request test_client ''GET'' (getResourceEndpoint ''company'') None
                      (Some [(''search'', JStr ''acme''), (''limit'', JNum 10)]))])"
    unfolding R1 snd_conv fallback_request_def
    by (subst requestWithRetry_ok [where v = ?page]) (simp_all add: read_mockResponse)
  have "(\<exists>err. fst ?R1 = Inl err) \<or> (\<exists>resp x. fst ?R1 = Inr resp \<and> unwrap_data resp = Inl x)"
    unfolding R1 by (simp add: unwrap_data_def)
  note F = find_fallback [OF this, of latin1_toLowerCase]
  have "?F = (Inr ?row, snd ?R2)"
    unfolding F fallback_try_eq using R2
    by (simp add: unwrap_data_def js_or_def acme_matches)
  with R1 R2 show ?thesis
    by (simp add: lookup_request_1 lookup_request_2)
qed

end
